theory Spec2Isabelle
  imports Complex_Main
begin

section \<open>Values exchanged with the outside world\<close>

text \<open>
  A decoded JSON document, as \<^verbatim>\<open>response.json()\<close> returns it (numbers are integers
  here). Python's \<^verbatim>\<open>None\<close> is \<open>JNull\<close>, so the absent payload of \<^verbatim>\<open>extract_with_retry\<close>
  is \<open>JNull\<close> too.
\<close>

datatype json =
    JNull
  | JBool bool
  | JNum int
  | JStr string
  | JArr "json list"
  | JObj "(string \<times> json) list"

text \<open>Python's truth value of a decoded document (\<^verbatim>\<open>if data:\<close> in \<^verbatim>\<open>run_etl_cycle\<close>).\<close>

fun truthy :: "json \<Rightarrow> bool" where
  "truthy JNull = False"
| "truthy (JBool b) = b"
| "truthy (JNum n) = (n \<noteq> 0)"
| "truthy (JStr s) = (s \<noteq> [])"
| "truthy (JArr xs) = (xs \<noteq> [])"
| "truthy (JObj kvs) = (kvs \<noteq> [])"

text \<open>
  The exceptions the client distinguishes: \<^verbatim>\<open>httpx.HTTPStatusError\<close> (with the status code
  of its response and its message), \<^verbatim>\<open>httpx.RequestError\<close> (no response at all), and every
  other \<^verbatim>\<open>Exception\<close> (a body that is not JSON, a missing key, a database error).
\<close>

datatype exn =
    HTTPStatusError int string
  | RequestError string
  | OtherError string

text \<open>\<^verbatim>\<open>str(e)\<close>.\<close>

fun exn_str :: "exn \<Rightarrow> string" where
  "exn_str (HTTPStatusError st m) = m"
| "exn_str (RequestError m) = m"
| "exn_str (OtherError m) = m"

text \<open>\<^verbatim>\<open>getattr(getattr(e, 'response', None), 'status_code', None)\<close>.\<close>

fun exn_status :: "exn \<Rightarrow> int option" where
  "exn_status (HTTPStatusError st m) = Some st"
| "exn_status (RequestError m) = None"
| "exn_status (OtherError m) = None"

text \<open>
  The clause \<^verbatim>\<open>except (httpx.HTTPStatusError, httpx.RequestError)\<close> of
  \<^verbatim>\<open>extract_with_retry\<close>.
\<close>

fun is_httpx_error :: "exn \<Rightarrow> bool" where
  "is_httpx_error (HTTPStatusError st m) = True"
| "is_httpx_error (RequestError m) = True"
| "is_httpx_error (OtherError m) = False"

text \<open>
  What one HTTP request comes back with: \<open>Reply status text body\<close> is a response with its
  status code, the message \<^verbatim>\<open>raise_for_status\<close> would raise with, and its decoded body
  (\<open>None\<close> when the body cannot be decoded); \<open>NoReply text\<close> is a transport failure.
\<close>

datatype 'a reply =
    Reply int string "'a option"
  | NoReply string

text \<open>\<^verbatim>\<open>Response.is_success\<close>, which \<^verbatim>\<open>raise_for_status\<close> tests.\<close>

definition is_success :: "int \<Rightarrow> bool" where
  "is_success st = (200 \<le> st \<and> st \<le> 299)"

text \<open>\<^verbatim>\<open>int(x)\<close> on a float: truncation towards zero.\<close>

definition py_int :: "real \<Rightarrow> int" where
  "py_int x = (if 0 \<le> x then \<lfloor>x\<rfloor> else \<lceil>x\<rceil>)"

section \<open>Configuration (config.py)\<close>

record Settings =
  token_refresh_margin_seconds :: int
  etl_poll_interval_seconds :: int
  etl_max_retries :: int
  etl_retry_delay_seconds :: int

definition default_settings :: Settings where
  "default_settings =
     \<lparr>token_refresh_margin_seconds = 300,
      etl_poll_interval_seconds = 300,
      etl_max_retries = 3,
      etl_retry_delay_seconds = 5\<rparr>"

section \<open>Credentials (auth/token_manager.py)\<close>

record Token =
  access_token :: string
  token_type :: string
  expires_in :: int
  acquired_at :: real

definition expires_at :: "Token \<Rightarrow> real" where
  "expires_at tok = acquired_at tok + real_of_int (expires_in tok)"

text \<open>
  \<^verbatim>\<open>Token.is_expired(margin_seconds)\<close>; the last argument is the value \<^verbatim>\<open>time.time()\<close>
  returns inside the call. Floats are read as real numbers.
\<close>

definition is_expired :: "Token \<Rightarrow> int \<Rightarrow> real \<Rightarrow> bool" where
  "is_expired tok margin_seconds now = (now \<ge> expires_at tok - real_of_int margin_seconds)"

section \<open>Outcome records and the three sources\<close>

record health_metrics =
  endpoint :: string
  status_code :: "int option"
  response_time_ms :: "int option"
  success :: bool
  error_message :: "string option"

datatype extractor = PricesExtractor | PlantExtractor | SignalsExtractor

fun extractor_endpoint :: "extractor \<Rightarrow> string" where
  "extractor_endpoint PricesExtractor = ''/api/v1/energy/prices''"
| "extractor_endpoint PlantExtractor = ''/api/v1/plant/live''"
| "extractor_endpoint SignalsExtractor = ''/api/v1/control/signals/last''"

fun extractor_name :: "extractor \<Rightarrow> string" where
  "extractor_name PricesExtractor = ''Energy Prices''"
| "extractor_name PlantExtractor = ''Plant Status''"
| "extractor_name SignalsExtractor = ''Control Signals''"

text \<open>
  A Pandas data frame: the labels of its columns and its rows. \<^verbatim>\<open>df.empty\<close> holds of a
  frame without rows and of a frame without columns.
\<close>

record 'r dataframe =
  df_columns :: "string list"
  df_rows :: "'r list"

definition df_empty :: "'r dataframe \<Rightarrow> bool" where
  "df_empty df = (df_columns df = [] \<or> df_rows df = [])"

section \<open>The environment and the state of one pipeline\<close>

text \<open>
  Everything the pipeline does not decide itself is a field of the environment:
  \<^item> \<open>env_clock k\<close> is the value of the \<open>k\<close>-th reading of the wall clock;
  \<^item> \<open>oauth_server k\<close> is the outcome of the \<open>k\<close>-th \<^verbatim>\<open>POST /oauth/token\<close>, the body being the
    fields \<^verbatim>\<open>access_token\<close>, \<^verbatim>\<open>token_type\<close>, \<^verbatim>\<open>expires_in\<close> (\<open>None\<close>: not JSON, or a field
    is missing);
  \<^item> \<open>api_server k path auth\<close> is the outcome of the \<open>k\<close>-th \<^verbatim>\<open>GET\<close>, sent to \<open>path\<close> with the
    \<^verbatim>\<open>Authorization\<close> header \<open>auth\<close>;
  \<^item> \<open>transformer x data\<close> is what the Pandas transformation of source \<open>x\<close> returns or raises
    on \<open>data\<close> (pure and deterministic);
  \<^item> \<open>pg_connect k\<close> is the exception with which opening the \<open>k\<close>-th database connection
    fails, if it does, and \<open>pg_commit k\<close> the exception with which its commit fails;
  \<^item> \<open>pg_execute k\<close> tells whether the \<open>k\<close>-th \<^verbatim>\<open>INSERT\<close> sent to the database goes through
    (otherwise it raises, inside the per-row handler).
\<close>

record env =
  env_settings :: Settings
  env_clock :: "nat \<Rightarrow> real"
  oauth_server :: "nat \<Rightarrow> (string \<times> string \<times> int) reply"
  api_server :: "nat \<Rightarrow> string \<Rightarrow> string \<Rightarrow> json reply"
  transformer :: "extractor \<Rightarrow> json \<Rightarrow> exn + json list dataframe"
  pg_connect :: "nat \<Rightarrow> exn option"
  pg_commit :: "nat \<Rightarrow> exn option"
  pg_execute :: "nat \<Rightarrow> bool"

text \<open>
  The state: how often each part of the environment has been used, the cached credential
  of the one token manager (\<^verbatim>\<open>TokenManager._token\<close>), the buffer of the health checker
  (\<^verbatim>\<open>HealthChecker._metrics_buffer\<close>; an entry \<open>None\<close> is Python's \<^verbatim>\<open>None\<close>), and what an
  observer of the run records: the delays passed to \<^verbatim>\<open>asyncio.sleep\<close>, the endpoint of
  every call of \<^verbatim>\<open>extract\<close>, the number of calls of \<^verbatim>\<open>invalidate_token\<close>, and the
  records passed to \<^verbatim>\<open>load_health_metrics\<close>.
\<close>

record world =
  clock_reads :: nat
  token_requests :: nat
  api_requests :: nat
  db_sessions :: nat
  db_statements :: nat
  cached_token :: "Token option"
  metrics_buffer :: "health_metrics option list"
  sleeps :: "real list"
  extract_log :: "string list"
  invalidate_calls :: nat
  handed_off :: "health_metrics option list"

definition time_time :: "env \<Rightarrow> world \<Rightarrow> real \<times> world" where
  "time_time env w = (env_clock env (clock_reads w), w\<lparr>clock_reads := Suc (clock_reads w)\<rparr>)"

section \<open>Token manager (auth/token_manager.py)\<close>

text \<open>\<^verbatim>\<open>TokenManager._acquire_token\<close>: one request, no retry.\<close>

definition acquire_token :: "env \<Rightarrow> world \<Rightarrow> (exn + Token) \<times> world" where
  "acquire_token env w =
     (let w1 = w\<lparr>token_requests := Suc (token_requests w)\<rparr> in
      case oauth_server env (token_requests w) of
        NoReply m \<Rightarrow> (Inl (RequestError m), w1)
      | Reply st txt b \<Rightarrow>
          if \<not> is_success st then (Inl (HTTPStatusError st txt), w1)
          else (case b of
                  None \<Rightarrow> (Inl (OtherError ''malformed token response''), w1)
                | Some (a, ty, life) \<Rightarrow>
                    (case time_time env w1 of
                       (now, w2) \<Rightarrow>
                         (Inr \<lparr>access_token = a, token_type = ty,
                               expires_in = life, acquired_at = now\<rparr>, w2))))"

text \<open>
  The two statements \<^verbatim>\<open>self._token = await self._acquire_token()\<close> and
  \<^verbatim>\<open>return self._token.access_token\<close> of \<^verbatim>\<open>get_token\<close>.
\<close>

definition acquire_and_cache :: "env \<Rightarrow> world \<Rightarrow> (exn + string) \<times> world" where
  "acquire_and_cache env w =
     (case acquire_token env w of
        (Inl e, w1) \<Rightarrow> (Inl e, w1)
      | (Inr tok, w1) \<Rightarrow> (Inr (access_token tok), w1\<lparr>cached_token := Some tok\<rparr>))"

text \<open>
  \<^verbatim>\<open>TokenManager.get_token\<close>. The clock is read only when a credential is cached
  (\<^verbatim>\<open>or\<close> does not evaluate its second operand otherwise).
\<close>

definition get_token :: "env \<Rightarrow> world \<Rightarrow> (exn + string) \<times> world" where
  "get_token env w =
     (let margin = token_refresh_margin_seconds (env_settings env) in
      case cached_token w of
        None \<Rightarrow> acquire_and_cache env w
      | Some tok \<Rightarrow>
          (case time_time env w of
             (now, w1) \<Rightarrow>
               if is_expired tok margin now then acquire_and_cache env w1
               else (Inr (access_token tok), w1)))"

text \<open>\<^verbatim>\<open>TokenManager.get_auth_headers\<close>: the value of the one header, \<^verbatim>\<open>Authorization\<close>.\<close>

definition get_auth_headers :: "env \<Rightarrow> world \<Rightarrow> (exn + string) \<times> world" where
  "get_auth_headers env w =
     (case get_token env w of
        (Inl e, w1) \<Rightarrow> (Inl e, w1)
      | (Inr token, w1) \<Rightarrow> (Inr (''Bearer '' @ token), w1))"

text \<open>\<^verbatim>\<open>TokenManager.invalidate_token\<close>.\<close>

definition invalidate_token :: "world \<Rightarrow> world" where
  "invalidate_token w =
     w\<lparr>cached_token := None, invalidate_calls := Suc (invalidate_calls w)\<rparr>"

section \<open>Extractor (extractors/base.py)\<close>

text \<open>
  \<^verbatim>\<open>BaseExtractor.extract\<close>. The credential is fetched before the \<^verbatim>\<open>try\<close> block, so an
  exception of the token manager leaves \<^verbatim>\<open>extract\<close> as it is. The record that \<^verbatim>\<open>extract\<close>
  fills in on a failure is local to the call and lost when the exception is raised again;
  the clock is still read for it.
\<close>

definition "extract" :: "env \<Rightarrow> extractor \<Rightarrow> world \<Rightarrow> (exn + json \<times> health_metrics) \<times> world" where
  "extract env x w0 =
     (let w = w0\<lparr>extract_log := extract_log w0 @ [extractor_endpoint x]\<rparr> in
      case get_auth_headers env w of
        (Inl e, w1) \<Rightarrow> (Inl e, w1)
      | (Inr headers, w1) \<Rightarrow>
          (case time_time env w1 of
             (start_time, w2) \<Rightarrow>
               (let w3 = w2\<lparr>api_requests := Suc (api_requests w2)\<rparr> in
                case api_server env (api_requests w2) (extractor_endpoint x) headers of
                  NoReply m \<Rightarrow>
                    (case time_time env w3 of
                       (t, w4) \<Rightarrow> (Inl (RequestError m), w4))
                | Reply st txt b \<Rightarrow>
                    (case time_time env w3 of
                       (t, w4) \<Rightarrow>
                         if is_success st then
                           (case b of
                              None \<Rightarrow> (Inl (OtherError ''response body is not JSON''), w4)
                            | Some data \<Rightarrow>
                                (Inr (data,
                                   \<lparr>endpoint = extractor_endpoint x,
                                    status_code = Some st,
                                    response_time_ms = Some (py_int ((t - start_time) * 1000)),
                                    success = True,
                                    error_message = None\<rparr>), w4))
                         else
                           (case time_time env w4 of
                              (t', w5) \<Rightarrow>
                                (Inl (HTTPStatusError st txt),
                                 if st = 401 then invalidate_token w5 else w5))))))"

text \<open>\<^verbatim>\<open>x or default\<close>: the default replaces \<^verbatim>\<open>None\<close> and every other false value.\<close>

definition or_int :: "int option \<Rightarrow> int \<Rightarrow> int" where
  "or_int x d = (case x of None \<Rightarrow> d | Some v \<Rightarrow> if v = 0 then d else v)"

definition or_real :: "real option \<Rightarrow> real \<Rightarrow> real" where
  "or_real x d = (case x of None \<Rightarrow> d | Some v \<Rightarrow> if v = 0 then d else v)"

text \<open>The record \<^verbatim>\<open>extract_with_retry\<close> builds from a caught exception.\<close>

definition failure_metrics :: "extractor \<Rightarrow> exn \<Rightarrow> health_metrics" where
  "failure_metrics x e =
     \<lparr>endpoint = extractor_endpoint x,
      status_code = exn_status e,
      response_time_ms = None,
      success = False,
      error_message = Some (exn_str e)\<rparr>"

definition asyncio_sleep :: "real \<Rightarrow> world \<Rightarrow> world" where
  "asyncio_sleep d w = w\<lparr>sleeps := sleeps w @ [d]\<rparr>"

text \<open>
  The loop of \<^verbatim>\<open>extract_with_retry\<close> over the remaining values of \<^verbatim>\<open>attempt\<close>, with
  \<^verbatim>\<open>last_health_metrics\<close> as an argument. An exception that the \<^verbatim>\<open>except\<close> clause does not
  name leaves the loop.
\<close>

fun retry_loop ::
  "env \<Rightarrow> extractor \<Rightarrow> int \<Rightarrow> real \<Rightarrow> nat list \<Rightarrow> health_metrics option \<Rightarrow> world
     \<Rightarrow> (exn + json \<times> health_metrics option) \<times> world" where
  "retry_loop env x max_retries retry_delay [] last_health_metrics w =
     (Inr (JNull, last_health_metrics), w)"
| "retry_loop env x max_retries retry_delay (attempt # rest) last_health_metrics w =
     (case extract env x w of
        (Inr (data, hm), w1) \<Rightarrow> (Inr (data, Some hm), w1)
      | (Inl e, w1) \<Rightarrow>
          if is_httpx_error e then
            retry_loop env x max_retries retry_delay rest (Some (failure_metrics x e))
              (if int attempt < max_retries
               then asyncio_sleep (retry_delay * 2 ^ attempt) w1
               else w1)
          else (Inl e, w1))"

text \<open>\<^verbatim>\<open>BaseExtractor.extract_with_retry\<close>.\<close>

definition extract_with_retry ::
  "env \<Rightarrow> extractor \<Rightarrow> int option \<Rightarrow> real option \<Rightarrow> world
     \<Rightarrow> (exn + json \<times> health_metrics option) \<times> world" where
  "extract_with_retry env x max_retries retry_delay w =
     (let max_retries' = or_int max_retries (etl_max_retries (env_settings env));
          retry_delay' = or_real retry_delay (real_of_int (etl_retry_delay_seconds (env_settings env)))
      in retry_loop env x max_retries' retry_delay' [0 ..< nat (max_retries' + 1)] None w)"

section \<open>Loader (loaders/postgres.py)\<close>

text \<open>
  The loop \<^verbatim>\<open>for _, row in df.iterrows()\<close> that the four loaders share: every row is
  inserted inside its own \<^verbatim>\<open>try\<close>, and a row that fails is logged and skipped.
  \<open>indexable\<close> tells whether the frame has the columns the statement indexes with
  \<^verbatim>\<open>row[...]\<close>; without them \<^verbatim>\<open>row[k]\<close> raises \<^verbatim>\<open>KeyError\<close> before anything is sent.
\<close>

fun insert_rows :: "env \<Rightarrow> bool \<Rightarrow> 'r list \<Rightarrow> int \<Rightarrow> world \<Rightarrow> int \<times> world" where
  "insert_rows env indexable [] inserted w = (inserted, w)"
| "insert_rows env indexable (row # rows) inserted w =
     (if indexable then
        insert_rows env indexable rows
          (if pg_execute env (db_statements w) then inserted + 1 else inserted)
          (w\<lparr>db_statements := Suc (db_statements w)\<rparr>)
      else insert_rows env indexable rows inserted w)"

text \<open>
  The body the four loaders share, \<open>required\<close> being the columns the statement indexes
  with \<^verbatim>\<open>row[...]\<close>: nothing is done for an empty frame; otherwise one connection is
  opened, the rows are inserted, and the transaction is committed. A failure to connect or
  to commit is not handled here.
\<close>

definition load_frame ::
  "env \<Rightarrow> string list \<Rightarrow> 'r dataframe \<Rightarrow> world \<Rightarrow> (exn + int) \<times> world" where
  "load_frame env required df w =
     (if df_empty df then (Inr 0, w)
      else
        (let w1 = w\<lparr>db_sessions := Suc (db_sessions w)\<rparr> in
         case pg_connect env (db_sessions w) of
           Some e \<Rightarrow> (Inl e, w1)
         | None \<Rightarrow>
             (case insert_rows env (list_all (\<lambda>k. k \<in> set (df_columns df)) required)
                     (df_rows df) 0 w1 of
                (inserted, w2) \<Rightarrow>
                  (case pg_commit env (db_sessions w) of
                     Some e \<Rightarrow> (Inl e, w2)
                   | None \<Rightarrow> (Inr inserted, w2)))))"

definition load_energy_prices ::
  "env \<Rightarrow> json list dataframe \<Rightarrow> world \<Rightarrow> (exn + int) \<times> world" where
  "load_energy_prices env df w =
     load_frame env
       [''publication_timestamp'', ''start_timestamp'', ''end_timestamp'',
        ''tariff_type'', ''tariff_name'', ''unit'', ''value''] df w"

definition load_plant_status ::
  "env \<Rightarrow> json list dataframe \<Rightarrow> world \<Rightarrow> (exn + int) \<times> world" where
  "load_plant_status env df w =
     load_frame env [''timestamp'', ''operational_status''] df w"

definition load_control_signals ::
  "env \<Rightarrow> json list dataframe \<Rightarrow> world \<Rightarrow> (exn + int) \<times> world" where
  "load_control_signals env df w =
     load_frame env
       [''signal_name'', ''signal_date'', ''start_timestamp'', ''end_timestamp''] df w"

text \<open>
  A row of the health frame: the record it was built from and the value of the column
  \<^verbatim>\<open>checked_at\<close>.
\<close>

record health_row =
  row_metrics :: "health_metrics option"
  checked_at :: real

definition load_health_metrics ::
  "env \<Rightarrow> health_row dataframe \<Rightarrow> world \<Rightarrow> (exn + int) \<times> world" where
  "load_health_metrics env df w = load_frame env [''endpoint'', ''success''] df w"

section \<open>Health checker (health/checker.py, transformers/pandas_processor.py)\<close>

text \<open>
  \<^verbatim>\<open>HealthChecker.record_metric\<close>: the record is appended first; the log line that follows
  reads the record with \<^verbatim>\<open>metrics.get\<close>, which \<^verbatim>\<open>None\<close> does not have.
\<close>

definition record_metric :: "health_metrics option \<Rightarrow> world \<Rightarrow> (exn + unit) \<times> world" where
  "record_metric metrics w =
     (let w1 = w\<lparr>metrics_buffer := metrics_buffer w @ [metrics]\<rparr> in
      case metrics of
        None \<Rightarrow> (Inl (OtherError ''AttributeError''), w1)
      | Some m \<Rightarrow> (Inr (), w1))"

text \<open>
  The columns of \<^verbatim>\<open>pd.DataFrame([metrics])\<close> with the column \<^verbatim>\<open>checked_at\<close> added: the
  keys of the record, or the one column \<^verbatim>\<open>0\<close> when the record is \<^verbatim>\<open>None\<close>.
\<close>

definition health_columns :: "health_metrics option \<Rightarrow> string list" where
  "health_columns metrics =
     (case metrics of
        None \<Rightarrow> [''0'', ''checked_at'']
      | Some m \<Rightarrow>
          [''endpoint'', ''status_code'', ''response_time_ms'', ''success'',
           ''error_message'', ''checked_at''])"

text \<open>\<^verbatim>\<open>PandasProcessor.transform_health_metrics\<close>: a frame of one row, stamped with the clock.\<close>

definition transform_health_metrics ::
  "env \<Rightarrow> health_metrics option \<Rightarrow> world \<Rightarrow> health_row dataframe \<times> world" where
  "transform_health_metrics env metrics w =
     (case time_time env w of
        (now, w1) \<Rightarrow>
          (\<lparr>df_columns = health_columns metrics,
            df_rows = [\<lparr>row_metrics = metrics, checked_at = now\<rparr>]\<rparr>, w1))"

text \<open>
  The loop of \<^verbatim>\<open>flush_metrics\<close> over the buffered records, with \<^verbatim>\<open>total_inserted\<close> as an
  argument. An exception of the loader leaves the loop.
\<close>

fun flush_loop ::
  "env \<Rightarrow> health_metrics option list \<Rightarrow> int \<Rightarrow> world \<Rightarrow> (exn + int) \<times> world" where
  "flush_loop env [] total_inserted w = (Inr total_inserted, w)"
| "flush_loop env (metrics # rest) total_inserted w =
     (case transform_health_metrics env metrics w of
        (df, w1) \<Rightarrow>
          (case load_health_metrics env df (w1\<lparr>handed_off := handed_off w1 @ [metrics]\<rparr>) of
             (Inl e, w2) \<Rightarrow> (Inl e, w2)
           | (Inr inserted, w2) \<Rightarrow> flush_loop env rest (total_inserted + inserted) w2))"

text \<open>\<^verbatim>\<open>HealthChecker.flush_metrics\<close>.\<close>

definition flush_metrics :: "env \<Rightarrow> world \<Rightarrow> (exn + int) \<times> world" where
  "flush_metrics env w =
     (if metrics_buffer w = [] then (Inr 0, w)
      else
        (case flush_loop env (metrics_buffer w) 0 w of
           (Inl e, w1) \<Rightarrow> (Inl e, w1)
         | (Inr total_inserted, w1) \<Rightarrow> (Inr total_inserted, w1\<lparr>metrics_buffer := []\<rparr>)))"

text \<open>
  \<^verbatim>\<open>round(x, 2)\<close>, with the float read as a real number: the nearest multiple of one
  hundredth, a tie going to the even one.
\<close>

definition round_half_even :: "real \<Rightarrow> int" where
  "round_half_even x =
     (let f = \<lfloor>x\<rfloor>; d = x - real_of_int f in
      if d < 1 / 2 then f
      else if 1 / 2 < d then f + 1
      else if even f then f else f + 1)"

definition py_round2 :: "real \<Rightarrow> real" where
  "py_round2 x = real_of_int (round_half_even (x * 100)) / 100"

record summary =
  sum_total :: int
  sum_success :: int
  sum_failed :: int
  sum_success_rate :: real

text \<open>
  \<^verbatim>\<open>HealthChecker.get_summary\<close>. Counting the successes reads every entry with
  \<^verbatim>\<open>m.get\<close>, which \<^verbatim>\<open>None\<close> does not have.
\<close>

definition get_summary :: "world \<Rightarrow> (exn + summary) \<times> world" where
  "get_summary w =
     (let buf = metrics_buffer w in
      if buf = [] then
        (Inr \<lparr>sum_total = 0, sum_success = 0, sum_failed = 0, sum_success_rate = 0\<rparr>, w)
      else if None \<in> set buf then (Inl (OtherError ''AttributeError''), w)
      else
        (let total = int (length buf);
             succ = int (length (filter (\<lambda>m. case m of None \<Rightarrow> False | Some h \<Rightarrow> success h) buf));
             failed = total - succ
         in (Inr \<lparr>sum_total = total, sum_success = succ, sum_failed = failed,
                  sum_success_rate =
                    (if total > 0 then py_round2 (100 * real_of_int succ / real_of_int total)
                     else 0)\<rparr>, w)))"

section \<open>Orchestrator (main.py)\<close>

record source_result =
  extracted :: bool
  loaded :: int

record results =
  prices :: source_result
  plant :: source_result
  signals :: source_result

definition load_source ::
  "env \<Rightarrow> extractor \<Rightarrow> json list dataframe \<Rightarrow> world \<Rightarrow> (exn + int) \<times> world" where
  "load_source env x df w =
     (case x of
        PricesExtractor \<Rightarrow> load_energy_prices env df w
      | PlantExtractor \<Rightarrow> load_plant_status env df w
      | SignalsExtractor \<Rightarrow> load_control_signals env df w)"

text \<open>
  The body of one of the three \<^verbatim>\<open>try\<close> blocks of \<^verbatim>\<open>run_etl_cycle\<close>, which differ in the
  source only. \<open>r0\<close> is the entry of the source in \<^verbatim>\<open>results\<close> before the block; the block
  replaces it only after a load that returned.
\<close>

definition etl_block ::
  "env \<Rightarrow> extractor \<Rightarrow> source_result \<Rightarrow> world \<Rightarrow> (exn + source_result) \<times> world" where
  "etl_block env x r0 w =
     (case extract_with_retry env x None None w of
        (Inl e, w1) \<Rightarrow> (Inl e, w1)
      | (Inr (data, health), w1) \<Rightarrow>
          (case record_metric health w1 of
             (Inl e, w2) \<Rightarrow> (Inl e, w2)
           | (Inr u, w2) \<Rightarrow>
               if truthy data then
                 (case transformer env x data of
                    Inl e \<Rightarrow> (Inl e, w2)
                  | Inr df \<Rightarrow>
                      (case load_source env x df w2 of
                         (Inl e, w3) \<Rightarrow> (Inl e, w3)
                       | (Inr n, w3) \<Rightarrow> (Inr \<lparr>extracted = True, loaded = n\<rparr>, w3)))
               else (Inr r0, w2)))"

text \<open>The block with its handler \<^verbatim>\<open>except Exception\<close>, which logs the exception and goes on.\<close>

definition try_block ::
  "env \<Rightarrow> extractor \<Rightarrow> source_result \<Rightarrow> world \<Rightarrow> source_result \<times> world" where
  "try_block env x r0 w =
     (case etl_block env x r0 w of
        (Inl e, w1) \<Rightarrow> (r0, w1)
      | (Inr r, w1) \<Rightarrow> (r, w1))"

text \<open>
  \<^verbatim>\<open>ETLPipeline.run_etl_cycle\<close>. The flush and the summary of the health checker come after
  the three blocks, outside any handler.
\<close>

definition run_etl_cycle :: "env \<Rightarrow> world \<Rightarrow> (exn + results) \<times> world" where
  "run_etl_cycle env w =
     (let r0 = \<lparr>extracted = False, loaded = 0\<rparr> in
      case try_block env PricesExtractor r0 w of
        (r_prices, w1) \<Rightarrow>
          (case try_block env PlantExtractor r0 w1 of
             (r_plant, w2) \<Rightarrow>
               (case try_block env SignalsExtractor r0 w2 of
                  (r_signals, w3) \<Rightarrow>
                    (case flush_metrics env w3 of
                       (Inl e, w4) \<Rightarrow> (Inl e, w4)
                     | (Inr n, w4) \<Rightarrow>
                         (case get_summary w4 of
                            (Inl e, w5) \<Rightarrow> (Inl e, w5)
                          | (Inr health_summary, w5) \<Rightarrow>
                              (Inr \<lparr>prices = r_prices, plant = r_plant, signals = r_signals\<rparr>,
                               w5))))))"

section \<open>Concrete runs\<close>

text \<open>The state of a pipeline that has just been constructed.\<close>

definition new_pipeline :: world where
  "new_pipeline =
     \<lparr>clock_reads = 0, token_requests = 0, api_requests = 0, db_sessions = 0,
      db_statements = 0, cached_token = None, metrics_buffer = [], sleeps = [],
      extract_log = [], invalidate_calls = 0, handed_off = []\<rparr>"

text \<open>
  A pipeline whose cached credential expires in 200 seconds, inside the refresh margin.
\<close>

definition stale_pipeline :: world where
  "stale_pipeline =
     new_pipeline\<lparr>cached_token :=
       Some \<lparr>access_token = ''old'', token_type = ''Bearer'',
             expires_in = 3600, acquired_at = - 3400\<rparr>\<rparr>"

text \<open>
  A deployment in which everything works: the clock advances by one second per reading,
  every credential lasts an hour, every request is answered with a small document, every
  transformation yields a frame of one row that has every column, and the database accepts everything.
\<close>

definition full_frame :: "json list dataframe" where
  "full_frame =
     \<lparr>df_columns =
        [''publication_timestamp'', ''start_timestamp'', ''end_timestamp'', ''tariff_type'',
         ''tariff_name'', ''unit'', ''value'', ''timestamp'', ''operational_status'',
         ''signal_name'', ''signal_date''],
      df_rows = [replicate 11 (JNum 1)]\<rparr>"

definition healthy_env :: env where
  "healthy_env =
     \<lparr>env_settings = default_settings,
      env_clock = (\<lambda>k. real k),
      oauth_server = (\<lambda>k. Reply 200 ''OK'' (Some (''secret'', ''Bearer'', 3600))),
      api_server = (\<lambda>k path auth. Reply 200 ''OK'' (Some (JObj [(''value'', JNum 1)]))),
      transformer = (\<lambda>x data. Inr full_frame),
      pg_connect = (\<lambda>k. None),
      pg_commit = (\<lambda>k. None),
      pg_execute = (\<lambda>k. True)\<rparr>"

text \<open>The same deployment with a data API that answers every request with one status.\<close>

definition status_env :: "int \<Rightarrow> string \<Rightarrow> env" where
  "status_env st txt = healthy_env\<lparr>api_server := (\<lambda>k path auth. Reply st txt None)\<rparr>"

text \<open>A data API whose answers have the status 200 and a body that is not JSON.\<close>

definition garbled_env :: env where
  "garbled_env = healthy_env\<lparr>api_server := (\<lambda>k path auth. Reply 200 ''OK'' None)\<rparr>"

text \<open>A data API that fails twice, with a timeout and with the status 503, and then works.\<close>

definition flaky_env :: env where
  "flaky_env =
     healthy_env\<lparr>api_server :=
       (\<lambda>k path auth.
          if k = 0 then NoReply ''timed out''
          else if k = 1 then Reply 503 ''Service Unavailable'' None
          else Reply 200 ''OK'' (Some (JObj [(''value'', JNum 1)])))\<rparr>"

text \<open>A database that rejects the first \<^verbatim>\<open>INSERT\<close> it is sent, and one that cannot be reached.\<close>

definition rejecting_env :: env where
  "rejecting_env = healthy_env\<lparr>pg_execute := (\<lambda>k. k \<noteq> 0)\<rparr>"

definition offline_env :: env where
  "offline_env = healthy_env\<lparr>pg_connect := (\<lambda>k. Some (OtherError ''connection refused''))\<rparr>"

text \<open>
  A deployment in which the transformation of the plant payload raises, and the same
  deployment with a database that can no longer be reached from its third connection on.
\<close>

definition plant_fault_env :: env where
  "plant_fault_env =
     healthy_env\<lparr>transformer :=
       (\<lambda>x data. if x = PlantExtractor then Inl (OtherError ''KeyError'') else Inr full_frame)\<rparr>"

definition outage_env :: env where
  "outage_env =
     plant_fault_env\<lparr>pg_connect :=
       (\<lambda>k. if 2 \<le> k then Some (OtherError ''connection refused'') else None)\<rparr>"

text \<open>Two outcome records, one of a call that went through and one of a call that did not.\<close>

definition ok_metrics :: health_metrics where
  "ok_metrics =
     \<lparr>endpoint = ''/api/v1/energy/prices'', status_code = Some 200,
      response_time_ms = Some 12, success = True, error_message = None\<rparr>"

definition failed_metrics :: health_metrics where
  "failed_metrics =
     \<lparr>endpoint = ''/api/v1/plant/live'', status_code = Some 500,
      response_time_ms = None, success = False,
      error_message = Some ''Internal Server Error''\<rparr>"

section \<open>Auxiliary facts\<close>

subsection \<open>What the token manager leaves unchanged\<close>

lemma time_time_frame [simp]:
  "snd (time_time env w) = w\<lparr>clock_reads := Suc (clock_reads w)\<rparr>"
  "fst (time_time env w) = env_clock env (clock_reads w)"
  by (simp_all add: time_time_def)

lemma acquire_token_frame [simp]:
  "token_requests (snd (acquire_token env w)) = Suc (token_requests w)"
  "api_requests (snd (acquire_token env w)) = api_requests w"
  "db_sessions (snd (acquire_token env w)) = db_sessions w"
  "db_statements (snd (acquire_token env w)) = db_statements w"
  "cached_token (snd (acquire_token env w)) = cached_token w"
  "metrics_buffer (snd (acquire_token env w)) = metrics_buffer w"
  "sleeps (snd (acquire_token env w)) = sleeps w"
  "extract_log (snd (acquire_token env w)) = extract_log w"
  "invalidate_calls (snd (acquire_token env w)) = invalidate_calls w"
  "handed_off (snd (acquire_token env w)) = handed_off w"
  by (simp_all add: acquire_token_def time_time_def Let_def case_prod_beta split: reply.splits option.splits)

lemma acquire_and_cache_frame [simp]:
  "token_requests (snd (acquire_and_cache env w)) = Suc (token_requests w)"
  "api_requests (snd (acquire_and_cache env w)) = api_requests w"
  "db_sessions (snd (acquire_and_cache env w)) = db_sessions w"
  "db_statements (snd (acquire_and_cache env w)) = db_statements w"
  "metrics_buffer (snd (acquire_and_cache env w)) = metrics_buffer w"
  "sleeps (snd (acquire_and_cache env w)) = sleeps w"
  "extract_log (snd (acquire_and_cache env w)) = extract_log w"
  "invalidate_calls (snd (acquire_and_cache env w)) = invalidate_calls w"
  "handed_off (snd (acquire_and_cache env w)) = handed_off w"
  by (simp_all add: acquire_and_cache_def case_prod_beta split: sum.splits)

lemma get_token_frame [simp]:
  "api_requests (snd (get_token env w)) = api_requests w"
  "db_sessions (snd (get_token env w)) = db_sessions w"
  "db_statements (snd (get_token env w)) = db_statements w"
  "metrics_buffer (snd (get_token env w)) = metrics_buffer w"
  "sleeps (snd (get_token env w)) = sleeps w"
  "extract_log (snd (get_token env w)) = extract_log w"
  "invalidate_calls (snd (get_token env w)) = invalidate_calls w"
  "handed_off (snd (get_token env w)) = handed_off w"
  by (simp_all add: get_token_def Let_def case_prod_beta split: option.splits)

lemma get_auth_headers_frame [simp]:
  "api_requests (snd (get_auth_headers env w)) = api_requests w"
  "db_sessions (snd (get_auth_headers env w)) = db_sessions w"
  "db_statements (snd (get_auth_headers env w)) = db_statements w"
  "metrics_buffer (snd (get_auth_headers env w)) = metrics_buffer w"
  "sleeps (snd (get_auth_headers env w)) = sleeps w"
  "extract_log (snd (get_auth_headers env w)) = extract_log w"
  "invalidate_calls (snd (get_auth_headers env w)) = invalidate_calls w"
  "handed_off (snd (get_auth_headers env w)) = handed_off w"
  by (simp_all add: get_auth_headers_def case_prod_beta split: sum.splits)

subsection \<open>The retry loop\<close>

lemma extract_frame [simp]:
  "extract_log (snd (extract env x w)) = extract_log w @ [extractor_endpoint x]"
  "sleeps (snd (extract env x w)) = sleeps w"
  "db_sessions (snd (extract env x w)) = db_sessions w"
  "db_statements (snd (extract env x w)) = db_statements w"
  "metrics_buffer (snd (extract env x w)) = metrics_buffer w"
  "handed_off (snd (extract env x w)) = handed_off w"
  by (simp_all add: extract_def Let_def case_prod_beta invalidate_token_def
      split: sum.splits reply.splits option.splits)

lemma retry_loop_exhausted:
  assumes fails: "\<And>v. \<exists>e. fst (extract env x v) = Inl e \<and> is_httpx_error e"
  shows "\<exists>hm w'. retry_loop env x m d idxs hm0 w = (Inr (JNull, hm), w')
           \<and> extract_log w' = extract_log w @ replicate (length idxs) (extractor_endpoint x)
           \<and> sleeps w' = sleeps w @ map (\<lambda>i. d * 2 ^ i) (filter (\<lambda>i. int i < m) idxs)
           \<and> (idxs = [] \<longrightarrow> hm = hm0 \<and> w' = w)
           \<and> (idxs \<noteq> [] \<longrightarrow> \<not> int (last idxs) < m \<longrightarrow>
                 (\<exists>v e. extract env x v = (Inl e, w') \<and> is_httpx_error e
                        \<and> hm = Some (failure_metrics x e)))"
proof (induction idxs arbitrary: hm0 w)
  case Nil
  show ?case by simp
next
  case (Cons i idxs)
  from fails [of w] obtain e where e: "fst (extract env x w) = Inl e" "is_httpx_error e"
    by blast
  define w1 where "w1 = snd (extract env x w)"
  have ex: "extract env x w = (Inl e, w1)"
    using e(1) by (simp add: w1_def prod_eq_iff)
  define w2 where "w2 = (if int i < m then asyncio_sleep (d * 2 ^ i) w1 else w1)"
  have step: "retry_loop env x m d (i # idxs) hm0 w
                = retry_loop env x m d idxs (Some (failure_metrics x e)) w2"
    using ex e(2) by (simp add: w2_def)
  from Cons.IH [of "Some (failure_metrics x e)" w2]
  obtain hm w' where IH:
    "retry_loop env x m d idxs (Some (failure_metrics x e)) w2 = (Inr (JNull, hm), w')"
    "extract_log w' = extract_log w2 @ replicate (length idxs) (extractor_endpoint x)"
    "sleeps w' = sleeps w2 @ map (\<lambda>i. d * 2 ^ i) (filter (\<lambda>i. int i < m) idxs)"
    "idxs = [] \<longrightarrow> hm = Some (failure_metrics x e) \<and> w' = w2"
    "idxs \<noteq> [] \<longrightarrow> \<not> int (last idxs) < m \<longrightarrow>
       (\<exists>v e. extract env x v = (Inl e, w') \<and> is_httpx_error e \<and> hm = Some (failure_metrics x e))"
    by blast
  have log2: "extract_log w2 = extract_log w @ [extractor_endpoint x]"
    by (simp add: w2_def w1_def asyncio_sleep_def)
  have sl2: "sleeps w2 = sleeps w @ (if int i < m then [d * 2 ^ i] else [])"
    by (simp add: w2_def w1_def asyncio_sleep_def)
  have last_case: "\<not> int (last (i # idxs)) < m \<longrightarrow>
       (\<exists>v e. extract env x v = (Inl e, w') \<and> is_httpx_error e \<and> hm = Some (failure_metrics x e))"
  proof (cases "idxs = []")
    case True
    with IH(4) have "hm = Some (failure_metrics x e)" "w' = w2" by simp_all
    with True ex e(2) show ?thesis by (auto simp: w2_def)
  next
    case False
    with IH(5) show ?thesis by simp
  qed
  show ?case
    unfolding step using IH(1) IH(2) IH(3) log2 sl2 last_case
    by (simp add: replicate_append_same)
qed

lemma retry_loop_frame [simp]:
  "db_sessions (snd (retry_loop env x m d idxs hm0 w)) = db_sessions w"
  "db_statements (snd (retry_loop env x m d idxs hm0 w)) = db_statements w"
  "metrics_buffer (snd (retry_loop env x m d idxs hm0 w)) = metrics_buffer w"
  "handed_off (snd (retry_loop env x m d idxs hm0 w)) = handed_off w"
  by (induction idxs arbitrary: hm0 w;
      simp add: case_prod_beta asyncio_sleep_def split: sum.splits)+

lemma retry_loop_prefix:
  "\<exists>k j. k \<le> length idxs \<and> j \<le> length idxs \<and> (idxs \<noteq> [] \<longrightarrow> 1 \<le> k)
     \<and> extract_log (snd (retry_loop env x m d idxs hm0 w))
         = extract_log w @ replicate k (extractor_endpoint x)
     \<and> sleeps (snd (retry_loop env x m d idxs hm0 w))
         = sleeps w @ map (\<lambda>i. d * 2 ^ i) (filter (\<lambda>i. int i < m) (take j idxs))"
proof (induction idxs arbitrary: hm0 w)
  case Nil
  show ?case by simp
next
  case (Cons i idxs)
  define w1 where "w1 = snd (extract env x w)"
  show ?case
  proof (cases "fst (extract env x w)")
    case (Inr r)
    then have "snd (retry_loop env x m d (i # idxs) hm0 w) = w1"
      by (simp add: case_prod_beta w1_def)
    then have "extract_log (snd (retry_loop env x m d (i # idxs) hm0 w))
                 = extract_log w @ replicate 1 (extractor_endpoint x)"
      and "sleeps (snd (retry_loop env x m d (i # idxs) hm0 w))
                 = sleeps w @ map (\<lambda>i. d * 2 ^ i) (filter (\<lambda>i. int i < m) (take 0 (i # idxs)))"
      by (simp_all add: w1_def)
    then show ?thesis
      by (intro exI [of _ 1] exI [of _ 0]) simp
  next
    case (Inl e)
    show ?thesis
    proof (cases "is_httpx_error e")
      case False
      with Inl have "snd (retry_loop env x m d (i # idxs) hm0 w) = w1"
        by (simp add: case_prod_beta w1_def)
      then have "extract_log (snd (retry_loop env x m d (i # idxs) hm0 w))
                   = extract_log w @ replicate 1 (extractor_endpoint x)"
        and "sleeps (snd (retry_loop env x m d (i # idxs) hm0 w))
                   = sleeps w @ map (\<lambda>i. d * 2 ^ i) (filter (\<lambda>i. int i < m) (take 0 (i # idxs)))"
        by (simp_all add: w1_def)
      then show ?thesis
        by (intro exI [of _ 1] exI [of _ 0]) simp
    next
      case True
      define w2 where "w2 = (if int i < m then asyncio_sleep (d * 2 ^ i) w1 else w1)"
      have step: "retry_loop env x m d (i # idxs) hm0 w
                    = retry_loop env x m d idxs (Some (failure_metrics x e)) w2"
        using Inl True by (simp add: case_prod_beta w2_def w1_def)
      from Cons.IH [of "Some (failure_metrics x e)" w2]
      obtain k j where IH: "k \<le> length idxs" "j \<le> length idxs"
        "extract_log (snd (retry_loop env x m d idxs (Some (failure_metrics x e)) w2))
           = extract_log w2 @ replicate k (extractor_endpoint x)"
        "sleeps (snd (retry_loop env x m d idxs (Some (failure_metrics x e)) w2))
           = sleeps w2 @ map (\<lambda>i. d * 2 ^ i) (filter (\<lambda>i. int i < m) (take j idxs))"
        by blast
      have log2: "extract_log w2 = extract_log w @ [extractor_endpoint x]"
        by (simp add: w2_def w1_def asyncio_sleep_def)
      have sl2: "sleeps w2 = sleeps w @ (if int i < m then [d * 2 ^ i] else [])"
        by (simp add: w2_def w1_def asyncio_sleep_def)
      have "extract_log (snd (retry_loop env x m d (i # idxs) hm0 w))
              = extract_log w @ replicate (Suc k) (extractor_endpoint x)"
        unfolding step using IH(3) log2 by (simp add: replicate_append_same)
      moreover have "sleeps (snd (retry_loop env x m d (i # idxs) hm0 w))
              = sleeps w @ map (\<lambda>i. d * 2 ^ i) (filter (\<lambda>i. int i < m) (take (Suc j) (i # idxs)))"
        unfolding step using IH(4) sl2 by simp
      ultimately show ?thesis
        using IH(1,2) by (intro exI [of _ "Suc k"] exI [of _ "Suc j"]) simp
    qed
  qed
qed

lemma filter_less_upt: "filter (\<lambda>i. int i < m) [0..<n] = [0..<min n (nat m)]"
proof (induction n)
  case 0
  show ?case by simp
next
  case (Suc n)
  show ?case
  proof (cases "int n < m")
    case True
    then have "n < nat m" by linarith
    with Suc True show ?thesis by (simp add: min_def)
  next
    case False
    then have "nat m \<le> n" by linarith
    with Suc False show ?thesis by (simp add: min_def)
  qed
qed

lemma attempts_upt:
  assumes "0 \<le> m"
  shows "length [0..<nat (m + 1)] = nat m + 1"
    and "[0..<nat (m + 1)] \<noteq> []"
    and "\<not> int (last [0..<nat (m + 1)]) < m"
proof -
  from assms have n: "nat (m + 1) = Suc (nat m)" by linarith
  show "length [0..<nat (m + 1)] = nat m + 1" using n by simp
  show "[0..<nat (m + 1)] \<noteq> []" using n by simp
  show "\<not> int (last [0..<nat (m + 1)]) < m" using n assms by simp
qed

lemma filter_attempts:
  "filter (\<lambda>i. int i < m) [0..<nat (m + 1)] = [0..<nat m]"
  by (auto simp: filter_less_upt min_def)

lemma filter_take_attempts:
  "filter (\<lambda>i. int i < m) (take j [0..<nat (m + 1)]) = [0..<min j (nat m)]"
proof -
  have "take j [0..<nat (m + 1)] = [0..<min j (nat (m + 1))]"
    by (simp add: min_def)
  then show ?thesis
    by (auto simp: filter_less_upt min_def)
qed

lemma extract_with_retry_all_fail:
  assumes fails: "\<forall>v. \<exists>e. fst (extract env x v) = Inl e \<and> is_httpx_error e"
      and m: "m = or_int max_retries (etl_max_retries (env_settings env))" "0 \<le> m"
      and d: "d = or_real retry_delay (real_of_int (etl_retry_delay_seconds (env_settings env)))"
  shows "\<exists>v e w'. extract env x v = (Inl e, w') \<and> is_httpx_error e
           \<and> extract_with_retry env x max_retries retry_delay w
               = (Inr (JNull, Some (failure_metrics x e)), w')
           \<and> extract_log w' = extract_log w @ replicate (nat m + 1) (extractor_endpoint x)
           \<and> sleeps w' = sleeps w @ map (\<lambda>i. d * 2 ^ i) [0..<nat m]"
proof -
  from fails have f: "\<And>v. \<exists>e. fst (extract env x v) = Inl e \<and> is_httpx_error e"
    by blast
  from retry_loop_exhausted [of env x m d "[0..<nat (m + 1)]" None w, OF f]
  obtain hm w' where r:
    "retry_loop env x m d [0..<nat (m + 1)] None w = (Inr (JNull, hm), w')"
    "extract_log w' = extract_log w @ replicate (length [0..<nat (m + 1)]) (extractor_endpoint x)"
    "sleeps w' = sleeps w @ map (\<lambda>i. d * 2 ^ i) (filter (\<lambda>i. int i < m) [0..<nat (m + 1)])"
    "[0..<nat (m + 1)] \<noteq> [] \<longrightarrow> \<not> int (last [0..<nat (m + 1)]) < m \<longrightarrow>
       (\<exists>v e. extract env x v = (Inl e, w') \<and> is_httpx_error e \<and> hm = Some (failure_metrics x e))"
    by blast
  from r(4) attempts_upt(2,3) [OF m(2)]
  obtain v e where ve: "extract env x v = (Inl e, w')" "is_httpx_error e" "hm = Some (failure_metrics x e)"
    by blast
  have "extract_with_retry env x max_retries retry_delay w = (Inr (JNull, Some (failure_metrics x e)), w')"
    using r(1) ve(3) m(1) d by (simp add: extract_with_retry_def Let_def)
  moreover have "extract_log w' = extract_log w @ replicate (nat m + 1) (extractor_endpoint x)"
    using r(2) attempts_upt(1) [OF m(2)] by simp
  moreover have "sleeps w' = sleeps w @ map (\<lambda>i. d * 2 ^ i) [0..<nat m]"
    using r(3) by (simp only: filter_attempts)
  ultimately show ?thesis
    using ve(1,2) by blast
qed

text \<open>
  An exception of the token manager leaves \<^verbatim>\<open>extract\<close> from outside its \<^verbatim>\<open>try\<close> block:
  no request is sent to the data API and \<^verbatim>\<open>invalidate_token\<close> is not called, whatever the
  status the token endpoint answered with.
\<close>

lemma extract_token_failure:
  assumes "get_auth_headers env (w\<lparr>extract_log := extract_log w @ [extractor_endpoint x]\<rparr>)
             = (Inl e, w1)"
  shows "extract env x w = (Inl e, w1)"
    and "invalidate_calls w1 = invalidate_calls w"
    and "api_requests w1 = api_requests w"
proof -
  show "extract env x w = (Inl e, w1)"
    using assms by (simp add: extract_def Let_def)
  show "invalidate_calls w1 = invalidate_calls w"
    using get_auth_headers_frame(7)
      [of env "w\<lparr>extract_log := extract_log w @ [extractor_endpoint x]\<rparr>"] assms
    by simp
  show "api_requests w1 = api_requests w"
    using get_auth_headers_frame(1)
      [of env "w\<lparr>extract_log := extract_log w @ [extractor_endpoint x]\<rparr>"] assms
    by simp
qed

subsection \<open>Evaluating concrete runs\<close>

lemma status_env_fails:
  "\<not> is_success st \<Longrightarrow> fst (extract (status_env st txt) x v) = Inl (HTTPStatusError st txt)"
  by (auto simp: extract_def status_env_def healthy_env_def get_auth_headers_def get_token_def
      acquire_and_cache_def acquire_token_def time_time_def is_success_def Let_def
      split: option.splits)

lemma extract_with_retry_prefix:
  "\<exists>k \<le> nat (or_int max_retries (etl_max_retries (env_settings env))).
      sleeps (snd (extract_with_retry env x max_retries retry_delay w))
        = sleeps w @ map (\<lambda>i. or_real retry_delay
                                 (real_of_int (etl_retry_delay_seconds (env_settings env))) * 2 ^ i)
                         [0..<k]"
proof -
  define m where "m = or_int max_retries (etl_max_retries (env_settings env))"
  define d where "d = or_real retry_delay (real_of_int (etl_retry_delay_seconds (env_settings env)))"
  from retry_loop_prefix [of "[0..<nat (m + 1)]" env x m d None w]
  obtain j where "sleeps (snd (retry_loop env x m d [0..<nat (m + 1)] None w))
         = sleeps w @ map (\<lambda>i. d * 2 ^ i) (filter (\<lambda>i. int i < m) (take j [0..<nat (m + 1)]))"
    by blast
  then have "sleeps (snd (extract_with_retry env x max_retries retry_delay w))
         = sleeps w @ map (\<lambda>i. d * 2 ^ i) [0..<min j (nat m)]"
    by (simp add: extract_with_retry_def Let_def m_def d_def filter_take_attempts)
  then show ?thesis
    unfolding m_def d_def by (intro exI [of _ "min j (nat (or_int max_retries (etl_max_retries (env_settings env))))"]) simp
qed

lemma extract_with_retry_attempts:
  "\<exists>k \<le> nat (or_int max_retries (etl_max_retries (env_settings env)) + 1).
      (0 \<le> or_int max_retries (etl_max_retries (env_settings env)) \<longrightarrow> 1 \<le> k)
      \<and> extract_log (snd (extract_with_retry env x max_retries retry_delay w))
        = extract_log w @ replicate k (extractor_endpoint x)"
proof -
  define m where "m = or_int max_retries (etl_max_retries (env_settings env))"
  define d where "d = or_real retry_delay (real_of_int (etl_retry_delay_seconds (env_settings env)))"
  from retry_loop_prefix [of "[0..<nat (m + 1)]" env x m d None w]
  obtain k where k: "k \<le> length [0..<nat (m + 1)]" "[0..<nat (m + 1)] \<noteq> [] \<longrightarrow> 1 \<le> k"
    "extract_log (snd (retry_loop env x m d [0..<nat (m + 1)] None w))
         = extract_log w @ replicate k (extractor_endpoint x)"
    by blast
  have "0 \<le> m \<longrightarrow> 1 \<le> k"
    using k(2) attempts_upt(2) by blast
  moreover have "k \<le> nat (m + 1)" using k(1) by simp
  moreover have "extract_log (snd (extract_with_retry env x max_retries retry_delay w))
        = extract_log w @ replicate k (extractor_endpoint x)"
    using k(3) by (simp add: extract_with_retry_def Let_def m_def d_def)
  ultimately show ?thesis
    unfolding m_def by blast
qed

lemma extract_success:
  "fst (extract env x w) = Inr (data, hm) \<Longrightarrow> success hm"
  by (auto simp: extract_def Let_def case_prod_beta
      split: sum.splits reply.splits option.splits if_splits)

lemma retry_loop_run:
  assumes m: "0 \<le> m"
  shows "j \<le> nat m + 1 \<Longrightarrow>
         \<exists>a \<le> nat m + 1 - j. (j < nat m + 1 \<longrightarrow> 1 \<le> a)
           \<and> extract_log (snd (retry_loop env x m d [j..<nat m + 1] hm0 w))
               = extract_log w @ replicate a (extractor_endpoint x)
           \<and> sleeps (snd (retry_loop env x m d [j..<nat m + 1] hm0 w))
               = sleeps w @ map (\<lambda>i. d * 2 ^ i) [j..<j + a - 1]
           \<and> (a = nat m + 1 - j
                \<or> (\<exists>data hm. fst (retry_loop env x m d [j..<nat m + 1] hm0 w)
                                = Inr (data, Some hm) \<and> success hm)
                \<or> (\<exists>e. fst (retry_loop env x m d [j..<nat m + 1] hm0 w) = Inl e
                        \<and> \<not> is_httpx_error e))"
proof (induction "nat m + 1 - j" arbitrary: j w hm0)
  case 0
  then have j: "j = nat m + 1" by linarith
  then have idx: "[j..<nat m + 1] = []" by simp
  show ?case
    unfolding idx using j by (intro exI [of _ 0]) simp
next
  case (Suc k)
  then have j: "j < nat m + 1" by linarith
  then have idxs: "[j..<nat m + 1] = j # [Suc j..<nat m + 1]"
    by (simp add: upt_conv_Cons)
  define w1 where "w1 = snd (extract env x w)"
  have log1: "extract_log w1 = extract_log w @ [extractor_endpoint x]"
    and sl1: "sleeps w1 = sleeps w"
    by (simp_all add: w1_def)
  show ?case
  proof (cases "fst (extract env x w)")
    case (Inr r)
    obtain data hm where r: "r = (data, hm)" by (cases r)
    with Inr have s: "success hm" using extract_success by blast
    have res: "retry_loop env x m d [j..<nat m + 1] hm0 w = (Inr (data, Some hm), w1)"
      unfolding idxs using Inr r by (simp add: case_prod_beta w1_def)
    show ?thesis
      unfolding res using log1 sl1 s j
      by (intro exI [of _ 1]) simp
  next
    case (Inl e)
    show ?thesis
    proof (cases "is_httpx_error e")
      case False
      have res: "retry_loop env x m d [j..<nat m + 1] hm0 w = (Inl e, w1)"
        unfolding idxs using Inl False by (simp add: case_prod_beta w1_def)
      show ?thesis
        unfolding res using log1 sl1 False j
        by (intro exI [of _ 1]) simp
    next
      case True
      show ?thesis
      proof (cases "int j < m")
        case False
        with j m have jm: "Suc j = nat m + 1" by linarith
        then have rest: "[Suc j..<nat m + 1] = []" by simp
        have res: "retry_loop env x m d [j..<nat m + 1] hm0 w
                     = (Inr (JNull, Some (failure_metrics x e)), w1)"
          unfolding idxs rest using Inl True False by (simp add: case_prod_beta w1_def)
        show ?thesis
          unfolding res using log1 sl1 jm
          by (intro exI [of _ 1]) simp
      next
        case lt: True
        then have sj: "Suc j < nat m + 1" by linarith
        define w2 where "w2 = asyncio_sleep (d * 2 ^ j) w1"
        have log2: "extract_log w2 = extract_log w @ [extractor_endpoint x]"
          and sl2: "sleeps w2 = sleeps w @ [d * 2 ^ j]"
          by (simp_all add: w2_def asyncio_sleep_def log1 sl1)
        have res: "retry_loop env x m d [j..<nat m + 1] hm0 w
                     = retry_loop env x m d [Suc j..<nat m + 1] (Some (failure_metrics x e)) w2"
          unfolding idxs using Inl True lt by (simp add: case_prod_beta w1_def w2_def)
        have k: "k = nat m + 1 - Suc j" using Suc.hyps(2) by linarith
        from Suc.hyps(1) [OF k, of "Some (failure_metrics x e)" w2] sj
        obtain a where a: "a \<le> nat m + 1 - Suc j" "1 \<le> a"
          "extract_log (snd (retry_loop env x m d [Suc j..<nat m + 1] (Some (failure_metrics x e)) w2))
             = extract_log w2 @ replicate a (extractor_endpoint x)"
          "sleeps (snd (retry_loop env x m d [Suc j..<nat m + 1] (Some (failure_metrics x e)) w2))
             = sleeps w2 @ map (\<lambda>i. d * 2 ^ i) [Suc j..<Suc j + a - 1]"
          "a = nat m + 1 - Suc j
           \<or> (\<exists>data hm. fst (retry_loop env x m d [Suc j..<nat m + 1] (Some (failure_metrics x e)) w2)
                           = Inr (data, Some hm) \<and> success hm)
           \<or> (\<exists>e'. fst (retry_loop env x m d [Suc j..<nat m + 1] (Some (failure_metrics x e)) w2) = Inl e'
                   \<and> \<not> is_httpx_error e')"
          by auto
        have up: "[j..<j + Suc a - 1] = j # [Suc j..<Suc j + a - 1]"
          using a(2) by (simp add: upt_conv_Cons)
        have c1: "Suc a \<le> nat m + 1 - j" using a(1) sj by linarith
        have c3: "extract_log (snd (retry_loop env x m d [j..<nat m + 1] hm0 w))
               = extract_log w @ replicate (Suc a) (extractor_endpoint x)"
          unfolding res using a(3) log2 by (simp add: replicate_append_same)
        have c4: "sleeps (snd (retry_loop env x m d [j..<nat m + 1] hm0 w))
               = sleeps w @ map (\<lambda>i. d * 2 ^ i) [j..<j + Suc a - 1]"
          unfolding res up using a(4) sl2 by simp
        have c5: "Suc a = nat m + 1 - j
                \<or> (\<exists>data hm. fst (retry_loop env x m d [j..<nat m + 1] hm0 w)
                                = Inr (data, Some hm) \<and> success hm)
                \<or> (\<exists>e. fst (retry_loop env x m d [j..<nat m + 1] hm0 w) = Inl e
                        \<and> \<not> is_httpx_error e)"
          unfolding res using a(5) sj by auto
        show ?thesis
          using c1 c3 c4 c5 by (intro exI [of _ "Suc a"]) simp
      qed
    qed
  qed
qed


lemma extract_with_retry_run:
  "\<exists>a \<le> nat (or_int max_retries (etl_max_retries (env_settings env)) + 1).
     (0 \<le> or_int max_retries (etl_max_retries (env_settings env)) \<longrightarrow> 1 \<le> a)
     \<and> extract_log (snd (extract_with_retry env x max_retries retry_delay w))
         = extract_log w @ replicate a (extractor_endpoint x)
     \<and> sleeps (snd (extract_with_retry env x max_retries retry_delay w))
         = sleeps w @ map (\<lambda>i. or_real retry_delay
                                  (real_of_int (etl_retry_delay_seconds (env_settings env))) * 2 ^ i)
                          [0..<a - 1]
     \<and> (a = nat (or_int max_retries (etl_max_retries (env_settings env)) + 1)
          \<or> (\<exists>data hm. fst (extract_with_retry env x max_retries retry_delay w)
                          = Inr (data, Some hm) \<and> success hm)
          \<or> (\<exists>e. fst (extract_with_retry env x max_retries retry_delay w) = Inl e
                  \<and> \<not> is_httpx_error e))"
proof -
  define m where "m = or_int max_retries (etl_max_retries (env_settings env))"
  define d where "d = or_real retry_delay (real_of_int (etl_retry_delay_seconds (env_settings env)))"
  have unfold: "extract_with_retry env x max_retries retry_delay w
                  = retry_loop env x m d [0..<nat (m + 1)] None w"
    by (simp add: extract_with_retry_def Let_def m_def d_def)
  show ?thesis
  proof (cases "0 \<le> m")
    case True
    then have n: "nat (m + 1) = nat m + 1" by linarith
    from retry_loop_run [OF True, of 0 env x d None w]
    obtain a where a: "a \<le> nat m + 1" "1 \<le> a"
      "extract_log (snd (retry_loop env x m d [0..<nat m + 1] None w))
         = extract_log w @ replicate a (extractor_endpoint x)"
      "sleeps (snd (retry_loop env x m d [0..<nat m + 1] None w))
         = sleeps w @ map (\<lambda>i. d * 2 ^ i) [0..<a - 1]"
      "a = nat m + 1
       \<or> (\<exists>data hm. fst (retry_loop env x m d [0..<nat m + 1] None w) = Inr (data, Some hm)
                       \<and> success hm)
       \<or> (\<exists>e. fst (retry_loop env x m d [0..<nat m + 1] None w) = Inl e \<and> \<not> is_httpx_error e)"
      by auto
    show ?thesis
      unfolding unfold m_def [symmetric] d_def [symmetric] n
      using a by (intro exI [of _ a]) simp
  next
    case False
    then have "[0..<nat (m + 1)] = []" "nat (m + 1) = 0" by simp_all
    then show ?thesis
      unfolding unfold m_def [symmetric] d_def [symmetric]
      using False by (intro exI [of _ 0]) simp
  qed
qed

lemmas run_defs = extract_with_retry_def or_int_def or_real_def status_env_def garbled_env_def
      flaky_env_def healthy_env_def default_settings_def new_pipeline_def
      extract_def get_auth_headers_def get_token_def acquire_and_cache_def acquire_token_def
      time_time_def is_success_def is_expired_def expires_at_def asyncio_sleep_def Let_def

subsection \<open>Loader and flush\<close>

lemma insert_rows_state:
  "\<exists>k. snd (insert_rows env ok rows n w) = w\<lparr>db_statements := k\<rparr>"
proof (induction rows arbitrary: n w)
  case Nil
  have "w = w\<lparr>db_statements := db_statements w\<rparr>" by simp
  then show ?case by (simp only: insert_rows.simps snd_conv) blast
next
  case (Cons row rows)
  show ?case
  proof (cases ok)
    case True
    from Cons [of "if pg_execute env (db_statements w) then n + 1 else n"
        "w\<lparr>db_statements := Suc (db_statements w)\<rparr>"]
    obtain k where "snd (insert_rows env ok rows
        (if pg_execute env (db_statements w) then n + 1 else n)
        (w\<lparr>db_statements := Suc (db_statements w)\<rparr>)) = w\<lparr>db_statements := k\<rparr>"
      by auto
    with True show ?thesis
      by (simp only: insert_rows.simps if_True) blast
  next
    case False
    with Cons [of n w] show ?thesis
      by (simp only: insert_rows.simps if_False)
  qed
qed

lemma insert_rows_frame [simp]:
  "clock_reads (snd (insert_rows env ok rows n w)) = clock_reads w"
  "db_sessions (snd (insert_rows env ok rows n w)) = db_sessions w"
  "metrics_buffer (snd (insert_rows env ok rows n w)) = metrics_buffer w"
  "handed_off (snd (insert_rows env ok rows n w)) = handed_off w"
  "extract_log (snd (insert_rows env ok rows n w)) = extract_log w"
  using insert_rows_state [of env ok rows n w] by auto

lemma insert_rows_count:
  "db_statements w \<le> db_statements (snd (insert_rows env ok rows n w))
   \<and> fst (insert_rows env ok rows n w)
       = n + int (length (filter (pg_execute env)
                    [db_statements w ..< db_statements (snd (insert_rows env ok rows n w))]))
   \<and> fst (insert_rows env ok rows n w) \<le> n + int (length rows)"
proof (induction rows arbitrary: n w)
  case Nil
  show ?case by simp
next
  case (Cons row rows)
  show ?case
  proof (cases ok)
    case False
    then have "insert_rows env ok (row # rows) n w = insert_rows env ok rows n w"
      by (simp only: insert_rows.simps if_False)
    with Cons.IH [where n = n and w = w] show ?thesis by simp
  next
    case True
    define n' where "n' = (if pg_execute env (db_statements w) then n + 1 else n)"
    define w' where "w' = w\<lparr>db_statements := Suc (db_statements w)\<rparr>"
    have step: "insert_rows env ok (row # rows) n w = insert_rows env ok rows n' w'"
      using True by (simp only: insert_rows.simps if_True n'_def w'_def)
    from Cons.IH [where n = n' and w = w'] have IH:
      "Suc (db_statements w) \<le> db_statements (snd (insert_rows env ok rows n' w'))"
      "fst (insert_rows env ok rows n' w')
         = n' + int (length (filter (pg_execute env)
                    [Suc (db_statements w) ..< db_statements (snd (insert_rows env ok rows n' w'))]))"
      "fst (insert_rows env ok rows n' w') \<le> n' + int (length rows)"
      by (simp_all add: w'_def)
    from IH(1) have "[db_statements w ..< db_statements (snd (insert_rows env ok rows n' w'))]
        = db_statements w # [Suc (db_statements w) ..< db_statements (snd (insert_rows env ok rows n' w'))]"
      by (simp add: upt_conv_Cons)
    moreover have "n' = n + (if pg_execute env (db_statements w) then 1 else 0)"
      by (simp add: n'_def)
    ultimately show ?thesis
      unfolding step using IH by auto
  qed
qed

lemma load_frame_frame [simp]:
  "clock_reads (snd (load_frame env req df w)) = clock_reads w"
  "metrics_buffer (snd (load_frame env req df w)) = metrics_buffer w"
  "handed_off (snd (load_frame env req df w)) = handed_off w"
  "extract_log (snd (load_frame env req df w)) = extract_log w"
  by (simp_all add: load_frame_def Let_def case_prod_beta split: option.splits)

lemma load_frame_count:
  "db_statements w \<le> db_statements (snd (load_frame env req df w))
   \<and> (fst (load_frame env req df w) = Inr n \<longrightarrow>
        n = int (length (filter (pg_execute env)
                   [db_statements w ..< db_statements (snd (load_frame env req df w))]))
        \<and> n \<le> int (length (df_rows df)))"
  using insert_rows_count [where w = "w\<lparr>db_sessions := Suc (db_sessions w)\<rparr>" and env = env
      and ok = "list_all (\<lambda>k. k \<in> set (df_columns df)) req" and rows = "df_rows df" and n = 0]
  by (auto simp: load_frame_def Let_def case_prod_beta split: option.splits)

lemma load_frame_returns:
  "\<forall>k. pg_connect env k = None \<and> pg_commit env k = None \<Longrightarrow>
   \<exists>n. fst (load_frame env req df w) = Inr n"
  by (simp add: load_frame_def Let_def case_prod_beta)

lemma upt_split: "a \<le> b \<Longrightarrow> b \<le> c \<Longrightarrow> [a..<c] = [a..<b] @ [b..<(c::nat)]"
  using upt_add_eq_append [of a b "c - b"] by simp

lemma flush_loop_Cons:
  "flush_loop env (metrics # rest) tot w =
     (case load_health_metrics env
             \<lparr>df_columns = health_columns metrics,
              df_rows = [\<lparr>row_metrics = metrics, checked_at = env_clock env (clock_reads w)\<rparr>]\<rparr>
             (w\<lparr>clock_reads := Suc (clock_reads w), handed_off := handed_off w @ [metrics]\<rparr>) of
        (Inl e, w2) \<Rightarrow> (Inl e, w2)
      | (Inr inserted, w2) \<Rightarrow> flush_loop env rest (tot + inserted) w2)"
  by (simp add: transform_health_metrics_def time_time_def)

lemma flush_loop_frame [simp]:
  "metrics_buffer (snd (flush_loop env ms tot w)) = metrics_buffer w"
  "extract_log (snd (flush_loop env ms tot w)) = extract_log w"
proof (induction ms arbitrary: tot w)
  case Nil
  { case 1 show ?case by simp }
  { case 2 show ?case by simp }
next
  case (Cons metrics rest)
  { case 1 show ?case
      by (simp only: flush_loop_Cons) (simp add: Cons load_health_metrics_def case_prod_beta split: sum.splits) }
  { case 2 show ?case
      by (simp only: flush_loop_Cons) (simp add: Cons load_health_metrics_def case_prod_beta split: sum.splits) }
qed

lemma flush_loop_returns:
  "fst (flush_loop env ms tot w) = Inr n \<Longrightarrow>
     handed_off (snd (flush_loop env ms tot w)) = handed_off w @ ms
     \<and> db_statements w \<le> db_statements (snd (flush_loop env ms tot w))
     \<and> n = tot + int (length (filter (pg_execute env)
              [db_statements w ..< db_statements (snd (flush_loop env ms tot w))]))
     \<and> n \<le> tot + int (length ms)"
proof (induction ms arbitrary: tot w)
  case Nil
  then show ?case by simp
next
  case (Cons metrics rest)
  define df where "df = \<lparr>df_columns = health_columns metrics,
     df_rows = [\<lparr>row_metrics = metrics, checked_at = env_clock env (clock_reads w)\<rparr>]\<rparr>"
  define w1 where "w1 = w\<lparr>clock_reads := Suc (clock_reads w), handed_off := handed_off w @ [metrics]\<rparr>"
  define req where "req = [''endpoint'', ''success'']"
  define w2 where "w2 = snd (load_frame env req df w1)"
  have unfold: "flush_loop env (metrics # rest) tot w =
     (case fst (load_frame env req df w1) of
        Inl e \<Rightarrow> (Inl e, w2)
      | Inr inserted \<Rightarrow> flush_loop env rest (tot + inserted) w2)"
    by (simp only: flush_loop_Cons)
       (simp add: load_health_metrics_def df_def w1_def w2_def req_def case_prod_beta split: sum.splits)
  from Cons.prems obtain k where k: "fst (load_frame env req df w1) = Inr k"
    unfolding unfold by (cases "fst (load_frame env req df w1)") simp_all
  then have step: "flush_loop env (metrics # rest) tot w = flush_loop env rest (tot + k) w2"
    unfolding unfold by simp
  from load_frame_count [of w1 env req df k] k
  have c: "db_statements w1 \<le> db_statements w2"
    "k = int (length (filter (pg_execute env) [db_statements w1 ..< db_statements w2]))"
    "k \<le> int (length (df_rows df))"
    by (simp_all add: w2_def)
  from Cons.prems have "fst (flush_loop env rest (tot + k) w2) = Inr n"
    unfolding step .
  from Cons.IH [OF this] have IH:
    "handed_off (snd (flush_loop env rest (tot + k) w2)) = handed_off w2 @ rest"
    "db_statements w2 \<le> db_statements (snd (flush_loop env rest (tot + k) w2))"
    "n = tot + k + int (length (filter (pg_execute env)
              [db_statements w2 ..< db_statements (snd (flush_loop env rest (tot + k) w2))]))"
    "n \<le> tot + k + int (length rest)"
    by simp_all
  have s1: "db_statements w1 = db_statements w" by (simp add: w1_def)
  have h2: "handed_off w2 = handed_off w @ [metrics]" by (simp add: w2_def w1_def)
  have "[db_statements w ..< db_statements (snd (flush_loop env rest (tot + k) w2))]
          = [db_statements w ..< db_statements w2]
            @ [db_statements w2 ..< db_statements (snd (flush_loop env rest (tot + k) w2))]"
    using c(1) IH(2) s1 by (intro upt_split) simp_all
  then show ?case
    unfolding step using IH c s1 h2 by (simp add: df_def)
qed

lemma flush_loop_total:
  assumes "\<forall>k. pg_connect env k = None \<and> pg_commit env k = None"
  shows "\<exists>n. fst (flush_loop env ms tot w) = Inr n"
proof (induction ms arbitrary: tot w)
  case Nil
  show ?case by simp
next
  case (Cons metrics rest)
  from load_frame_returns [OF assms]
  obtain k where "fst (load_health_metrics env
        \<lparr>df_columns = health_columns metrics,
         df_rows = [\<lparr>row_metrics = metrics, checked_at = env_clock env (clock_reads w)\<rparr>]\<rparr>
        (w\<lparr>clock_reads := Suc (clock_reads w), handed_off := handed_off w @ [metrics]\<rparr>)) = Inr k"
    unfolding load_health_metrics_def by blast
  then show ?case
    using Cons by (simp only: flush_loop_Cons) (simp add: case_prod_beta)
qed

lemmas flush_defs = flush_metrics_def transform_health_metrics_def load_health_metrics_def
  load_frame_def df_empty_def health_columns_def time_time_def rejecting_env_def
  offline_env_def healthy_env_def new_pipeline_def ok_metrics_def failed_metrics_def Let_def

subsection \<open>Rounding\<close>

lemma round_half_even_near: "\<bar>real_of_int (round_half_even x) - x\<bar> \<le> 1 / 2"
  unfolding round_half_even_def Let_def by (auto simp: abs_if) linarith+

lemma py_round2_near:
  "py_round2 x * 100 = real_of_int (round_half_even (x * 100))"
  "\<bar>py_round2 x - x\<bar> \<le> 1 / 200"
proof -
  show "py_round2 x * 100 = real_of_int (round_half_even (x * 100))"
    by (simp add: py_round2_def)
  from round_half_even_near [of "x * 100"]
  show "\<bar>py_round2 x - x\<bar> \<le> 1 / 200"
    by (simp add: py_round2_def abs_if field_simps split: if_splits)
qed

lemma py_round2_75: "py_round2 75 = 75"
  by (simp add: py_round2_def round_half_even_def)

lemma filter_Some_success:
  "filter (\<lambda>m. case m of None \<Rightarrow> False | Some h \<Rightarrow> success h) (map Some ms)
     = map Some (filter success ms)"
  by (induction ms) simp_all

subsection \<open>The cycle\<close>

lemma extract_with_retry_frame [simp]:
  "db_sessions (snd (extract_with_retry env x mr rd w)) = db_sessions w"
  "db_statements (snd (extract_with_retry env x mr rd w)) = db_statements w"
  "metrics_buffer (snd (extract_with_retry env x mr rd w)) = metrics_buffer w"
  "handed_off (snd (extract_with_retry env x mr rd w)) = handed_off w"
  by (simp_all add: extract_with_retry_def Let_def)

lemma record_metric_frame [simp]:
  "extract_log (snd (record_metric m w)) = extract_log w"
  "metrics_buffer (snd (record_metric m w)) = metrics_buffer w @ [m]"
  by (simp_all add: record_metric_def Let_def split: option.splits)

lemma load_source_frame [simp]:
  "extract_log (snd (load_source env x df w)) = extract_log w"
  "metrics_buffer (snd (load_source env x df w)) = metrics_buffer w"
  by (simp_all add: load_source_def load_energy_prices_def load_plant_status_def
      load_control_signals_def split: extractor.splits)

lemma etl_block_log:
  "extract_log (snd (etl_block env x r0 w))
     = extract_log (snd (extract_with_retry env x None None w))"
  by (simp add: etl_block_def case_prod_beta split: sum.splits)

lemma try_block_log:
  "\<exists>k. (0 \<le> etl_max_retries (env_settings env) \<longrightarrow> 1 \<le> k)
       \<and> extract_log (snd (try_block env x r0 w))
           = extract_log w @ replicate k (extractor_endpoint x)"
proof -
  have "extract_log (snd (try_block env x r0 w))
          = extract_log (snd (extract_with_retry env x None None w))"
    using etl_block_log [of env x r0 w]
    by (simp add: try_block_def case_prod_beta split: sum.splits)
  with extract_with_retry_attempts [of None env x None w] show ?thesis
    by (auto simp: or_int_def)
qed

lemma flush_metrics_frame [simp]:
  "extract_log (snd (flush_metrics env w)) = extract_log w"
  by (simp add: flush_metrics_def case_prod_beta split: sum.splits)

lemma flush_metrics_clears:
  "fst (flush_metrics env w) = Inr n \<Longrightarrow> metrics_buffer (snd (flush_metrics env w)) = []"
  by (simp add: flush_metrics_def case_prod_beta split: if_splits sum.splits)

lemma get_summary_empty:
  "metrics_buffer w = [] \<Longrightarrow>
   get_summary w = (Inr \<lparr>sum_total = 0, sum_success = 0, sum_failed = 0, sum_success_rate = 0\<rparr>, w)"
  by (simp add: get_summary_def)

lemma get_summary_state [simp]: "snd (get_summary w) = w"
  by (simp add: get_summary_def Let_def)

lemma run_etl_cycle_unfold:
  "run_etl_cycle env w =
     (let r0 = \<lparr>extracted = False, loaded = 0\<rparr>;
          w1 = snd (try_block env PricesExtractor r0 w);
          w2 = snd (try_block env PlantExtractor r0 w1);
          w3 = snd (try_block env SignalsExtractor r0 w2)
      in case fst (flush_metrics env w3) of
           Inl e \<Rightarrow> (Inl e, snd (flush_metrics env w3))
         | Inr n \<Rightarrow>
             (Inr \<lparr>prices = fst (try_block env PricesExtractor r0 w),
                   plant = fst (try_block env PlantExtractor r0 w1),
                   signals = fst (try_block env SignalsExtractor r0 w2)\<rparr>,
              snd (flush_metrics env w3)))"
proof -
  have "\<And>v n. fst (flush_metrics env v) = Inr n \<Longrightarrow>
          get_summary (snd (flush_metrics env v))
            = (Inr \<lparr>sum_total = 0, sum_success = 0, sum_failed = 0, sum_success_rate = 0\<rparr>,
               snd (flush_metrics env v))"
    by (simp add: get_summary_empty flush_metrics_clears)
  then show ?thesis
    by (simp add: run_etl_cycle_def Let_def case_prod_beta split: sum.splits)
qed

lemmas cycle_defs = run_etl_cycle_def try_block_def etl_block_def record_metric_def
  load_source_def load_energy_prices_def load_plant_status_def load_control_signals_def
  full_frame_def get_summary_def plant_fault_env_def outage_env_def

lemmas all_defs = cycle_defs flush_defs run_defs upt_rec py_int_def

section \<open>Exhausted retries\<close>




section \<open>Failure isolation in one cycle\<close>

text \<open>
  C2, in the form that holds. An exception raised inside the block of one source is caught there: the
  entry of the source keeps its initial value and the run goes on from the state the block
  left. The blocks of the three sources run one after the other whatever is raised inside
  them, and the health checker is flushed after them. The cycle returns its summary
  whenever that flush returns. When the configured number of retries is not negative,
  \<^verbatim>\<open>extract\<close> has been called at least once for each source, in the order prices, plant,
  signals.
\<close>

theorem run_etl_cycle_isolates:
  "(fst (etl_block env x \<lparr>extracted = False, loaded = 0\<rparr> v) = Inl e \<longrightarrow>
      try_block env x \<lparr>extracted = False, loaded = 0\<rparr> v
        = (\<lparr>extracted = False, loaded = 0\<rparr>,
           snd (etl_block env x \<lparr>extracted = False, loaded = 0\<rparr> v)))
   \<and> snd (run_etl_cycle env w)
       = snd (flush_metrics env
           (snd (try_block env SignalsExtractor \<lparr>extracted = False, loaded = 0\<rparr>
             (snd (try_block env PlantExtractor \<lparr>extracted = False, loaded = 0\<rparr>
               (snd (try_block env PricesExtractor \<lparr>extracted = False, loaded = 0\<rparr> w)))))))
   \<and> (fst (flush_metrics env
           (snd (try_block env SignalsExtractor \<lparr>extracted = False, loaded = 0\<rparr>
             (snd (try_block env PlantExtractor \<lparr>extracted = False, loaded = 0\<rparr>
               (snd (try_block env PricesExtractor \<lparr>extracted = False, loaded = 0\<rparr> w))))))) = Inr n \<longrightarrow>
        fst (run_etl_cycle env w)
          = Inr \<lparr>prices = fst (try_block env PricesExtractor \<lparr>extracted = False, loaded = 0\<rparr> w),
                 plant = fst (try_block env PlantExtractor \<lparr>extracted = False, loaded = 0\<rparr>
                   (snd (try_block env PricesExtractor \<lparr>extracted = False, loaded = 0\<rparr> w))),
                 signals = fst (try_block env SignalsExtractor \<lparr>extracted = False, loaded = 0\<rparr>
                   (snd (try_block env PlantExtractor \<lparr>extracted = False, loaded = 0\<rparr>
                     (snd (try_block env PricesExtractor \<lparr>extracted = False, loaded = 0\<rparr> w)))))\<rparr>)
   \<and> (0 \<le> etl_max_retries (env_settings env) \<longrightarrow>
        (\<exists>k1 k2 k3. 1 \<le> k1 \<and> 1 \<le> k2 \<and> 1 \<le> k3
           \<and> extract_log (snd (run_etl_cycle env w))
               = extract_log w @ replicate k1 (extractor_endpoint PricesExtractor)
                   @ replicate k2 (extractor_endpoint PlantExtractor)
                   @ replicate k3 (extractor_endpoint SignalsExtractor)))"
proof (intro conjI impI)
  assume "fst (etl_block env x \<lparr>extracted = False, loaded = 0\<rparr> v) = Inl e"
  then show "try_block env x \<lparr>extracted = False, loaded = 0\<rparr> v
        = (\<lparr>extracted = False, loaded = 0\<rparr>,
           snd (etl_block env x \<lparr>extracted = False, loaded = 0\<rparr> v))"
    by (simp add: try_block_def case_prod_beta)
next
  show "snd (run_etl_cycle env w)
       = snd (flush_metrics env
           (snd (try_block env SignalsExtractor \<lparr>extracted = False, loaded = 0\<rparr>
             (snd (try_block env PlantExtractor \<lparr>extracted = False, loaded = 0\<rparr>
               (snd (try_block env PricesExtractor \<lparr>extracted = False, loaded = 0\<rparr> w)))))))"
    by (simp add: run_etl_cycle_unfold Let_def split: sum.splits)
next
  assume "fst (flush_metrics env
           (snd (try_block env SignalsExtractor \<lparr>extracted = False, loaded = 0\<rparr>
             (snd (try_block env PlantExtractor \<lparr>extracted = False, loaded = 0\<rparr>
               (snd (try_block env PricesExtractor \<lparr>extracted = False, loaded = 0\<rparr> w))))))) = Inr n"
  then show "fst (run_etl_cycle env w)
          = Inr \<lparr>prices = fst (try_block env PricesExtractor \<lparr>extracted = False, loaded = 0\<rparr> w),
                 plant = fst (try_block env PlantExtractor \<lparr>extracted = False, loaded = 0\<rparr>
                   (snd (try_block env PricesExtractor \<lparr>extracted = False, loaded = 0\<rparr> w))),
                 signals = fst (try_block env SignalsExtractor \<lparr>extracted = False, loaded = 0\<rparr>
                   (snd (try_block env PlantExtractor \<lparr>extracted = False, loaded = 0\<rparr>
                     (snd (try_block env PricesExtractor \<lparr>extracted = False, loaded = 0\<rparr> w)))))\<rparr>"
    by (simp add: run_etl_cycle_unfold Let_def)
next
  assume cfg: "0 \<le> etl_max_retries (env_settings env)"
  define r0 where "r0 = \<lparr>extracted = False, loaded = 0\<rparr>"
  define w1 where "w1 = snd (try_block env PricesExtractor r0 w)"
  define w2 where "w2 = snd (try_block env PlantExtractor r0 w1)"
  define w3 where "w3 = snd (try_block env SignalsExtractor r0 w2)"
  from try_block_log [of env PricesExtractor r0 w] cfg
  obtain k1 where k1: "1 \<le> k1"
    "extract_log w1 = extract_log w @ replicate k1 (extractor_endpoint PricesExtractor)"
    unfolding w1_def by blast
  from try_block_log [of env PlantExtractor r0 w1] cfg
  obtain k2 where k2: "1 \<le> k2"
    "extract_log w2 = extract_log w1 @ replicate k2 (extractor_endpoint PlantExtractor)"
    unfolding w2_def by blast
  from try_block_log [of env SignalsExtractor r0 w2] cfg
  obtain k3 where k3: "1 \<le> k3"
    "extract_log w3 = extract_log w2 @ replicate k3 (extractor_endpoint SignalsExtractor)"
    unfolding w3_def by blast
  have "snd (run_etl_cycle env w) = snd (flush_metrics env w3)"
    by (simp add: run_etl_cycle_unfold Let_def w3_def w2_def w1_def r0_def split: sum.splits)
  then have "extract_log (snd (run_etl_cycle env w))
      = extract_log w @ replicate k1 (extractor_endpoint PricesExtractor)
          @ replicate k2 (extractor_endpoint PlantExtractor)
          @ replicate k3 (extractor_endpoint SignalsExtractor)"
    using k1(2) k2(2) k3(2) by simp
  with k1(1) k2(1) k3(1)
  show "\<exists>k1 k2 k3. 1 \<le> k1 \<and> 1 \<le> k2 \<and> 1 \<le> k3
           \<and> extract_log (snd (run_etl_cycle env w))
               = extract_log w @ replicate k1 (extractor_endpoint PricesExtractor)
                   @ replicate k2 (extractor_endpoint PlantExtractor)
                   @ replicate k3 (extractor_endpoint SignalsExtractor)"
    by blast
qed

text \<open>
  The theorem at work: the transformation of the plant payload raises; the prices and the
  signals are loaded all the same, and the buffer is flushed.
\<close>

theorem run_etl_cycle_isolates_witness:
  "fst (etl_block plant_fault_env PlantExtractor \<lparr>extracted = False, loaded = 0\<rparr>
         (snd (try_block plant_fault_env PricesExtractor \<lparr>extracted = False, loaded = 0\<rparr>
           new_pipeline))) = Inl (OtherError ''KeyError'')
   \<and> 0 \<le> etl_max_retries (env_settings plant_fault_env)
   \<and> fst (run_etl_cycle plant_fault_env new_pipeline)
       = Inr \<lparr>prices = \<lparr>extracted = True, loaded = 1\<rparr>,
              plant = \<lparr>extracted = False, loaded = 0\<rparr>,
              signals = \<lparr>extracted = True, loaded = 1\<rparr>\<rparr>
   \<and> extract_log (snd (run_etl_cycle plant_fault_env new_pipeline))
       = [''/api/v1/energy/prices'', ''/api/v1/plant/live'', ''/api/v1/control/signals/last'']
   \<and> metrics_buffer (snd (run_etl_cycle plant_fault_env new_pipeline)) = []"
  using run_etl_cycle_isolates [of plant_fault_env PlantExtractor
      "snd (try_block plant_fault_env PricesExtractor \<lparr>extracted = False, loaded = 0\<rparr> new_pipeline)"
      "OtherError ''KeyError''" new_pipeline 3]
  by (simp add: all_defs)

text \<open>
  C2 in the form of the specification does not hold: the transformation of the plant
  payload raises, the database becomes unreachable before the flush, and the cycle raises
  instead of returning a summary.
\<close>

theorem run_etl_cycle_counterexample:
  "transformer outage_env PlantExtractor (JObj [(''value'', JNum 1)]) = Inl (OtherError ''KeyError'')
   \<and> fst (run_etl_cycle outage_env new_pipeline) = Inl (OtherError ''connection refused'')"
  by (simp add: all_defs)

section \<open>Flushing the health buffer\<close>

text \<open>
  C3, in the form that holds. When \<^verbatim>\<open>flush_metrics\<close> returns, the buffer is empty, every buffered record
  has been handed to the loader, in order, and the number returned is the number of
  \<^verbatim>\<open>INSERT\<close> statements that went through during the flush, which is at most the number
  of records. \<^verbatim>\<open>flush_metrics\<close> returns whenever no connection and no commit fails, whatever
  happens to the single rows.
\<close>

theorem flush_metrics_hands_off:
  "(fst (flush_metrics env w) = Inr n \<longrightarrow>
      metrics_buffer (snd (flush_metrics env w)) = []
      \<and> handed_off (snd (flush_metrics env w)) = handed_off w @ metrics_buffer w
      \<and> n = int (length (filter (pg_execute env)
               [db_statements w ..< db_statements (snd (flush_metrics env w))]))
      \<and> n \<le> int (length (metrics_buffer w)))
   \<and> ((\<forall>k. pg_connect env k = None \<and> pg_commit env k = None) \<longrightarrow>
        (\<exists>n. fst (flush_metrics env w) = Inr n))"
proof (intro conjI impI)
  assume r: "fst (flush_metrics env w) = Inr n"
  show "metrics_buffer (snd (flush_metrics env w)) = []"
    using r by (simp add: flush_metrics_def case_prod_beta split: if_splits sum.splits)
  show "handed_off (snd (flush_metrics env w)) = handed_off w @ metrics_buffer w"
    using r flush_loop_returns [of env "metrics_buffer w" 0 w]
    by (auto simp: flush_metrics_def case_prod_beta split: if_splits sum.splits)
  show "n = int (length (filter (pg_execute env)
               [db_statements w ..< db_statements (snd (flush_metrics env w))]))"
    using r flush_loop_returns [of env "metrics_buffer w" 0 w]
    by (auto simp: flush_metrics_def case_prod_beta split: if_splits sum.splits)
  show "n \<le> int (length (metrics_buffer w))"
    using r flush_loop_returns [of env "metrics_buffer w" 0 w]
    by (auto simp: flush_metrics_def case_prod_beta split: if_splits sum.splits)
next
  assume "\<forall>k. pg_connect env k = None \<and> pg_commit env k = None"
  from flush_loop_total [OF this, of "metrics_buffer w" 0 w]
  show "\<exists>n. fst (flush_metrics env w) = Inr n"
    by (auto simp: flush_metrics_def case_prod_beta)
qed

text \<open>
  The theorem at work: two records, of which the database rejects the first.
\<close>

theorem flush_metrics_hands_off_witness:
  "(\<forall>k. pg_connect rejecting_env k = None \<and> pg_commit rejecting_env k = None)
   \<and> fst (flush_metrics rejecting_env
            (new_pipeline\<lparr>metrics_buffer := [Some ok_metrics, Some failed_metrics]\<rparr>)) = Inr 1
   \<and> metrics_buffer (snd (flush_metrics rejecting_env
            (new_pipeline\<lparr>metrics_buffer := [Some ok_metrics, Some failed_metrics]\<rparr>))) = []
   \<and> handed_off (snd (flush_metrics rejecting_env
            (new_pipeline\<lparr>metrics_buffer := [Some ok_metrics, Some failed_metrics]\<rparr>)))
       = [Some ok_metrics, Some failed_metrics]"
proof -
  have c: "\<forall>k. pg_connect rejecting_env k = None \<and> pg_commit rejecting_env k = None"
    by (simp add: rejecting_env_def healthy_env_def)
  have r: "fst (flush_metrics rejecting_env
            (new_pipeline\<lparr>metrics_buffer := [Some ok_metrics, Some failed_metrics]\<rparr>)) = Inr 1"
    by (simp add: flush_defs)
  from flush_metrics_hands_off [of rejecting_env
      "new_pipeline\<lparr>metrics_buffer := [Some ok_metrics, Some failed_metrics]\<rparr>" 1] r c
  show ?thesis
    by (simp add: new_pipeline_def)
qed

text \<open>
  C3 in the form of the specification does not hold. One record is handed off and
  rejected by the database: the number returned is 0, not 1. And when the database cannot be reached, the exception of
  the loader leaves \<^verbatim>\<open>flush_metrics\<close> and the buffer is not cleared.
\<close>

theorem flush_metrics_counterexample:
  "fst (flush_metrics rejecting_env (new_pipeline\<lparr>metrics_buffer := [Some ok_metrics]\<rparr>)) = Inr 0
   \<and> handed_off (snd (flush_metrics rejecting_env
        (new_pipeline\<lparr>metrics_buffer := [Some ok_metrics]\<rparr>))) = [Some ok_metrics]
   \<and> fst (flush_metrics offline_env (new_pipeline\<lparr>metrics_buffer := [Some ok_metrics]\<rparr>))
       = Inl (OtherError ''connection refused'')
   \<and> metrics_buffer (snd (flush_metrics offline_env
        (new_pipeline\<lparr>metrics_buffer := [Some ok_metrics]\<rparr>))) = [Some ok_metrics]"
  by (simp add: flush_defs)

section \<open>Credential expiry\<close>

text \<open>
  C4. A credential is expired under a margin exactly when the clock reading \<open>now\<close> satisfies
  \<open>now \<ge> acquired_at + expires_in - margin\<close>; at that very instant it is expired.
\<close>

theorem is_expired_iff:
  "is_expired tok margin now = (now \<ge> acquired_at tok + real_of_int (expires_in tok) - real_of_int margin)
   \<and> is_expired tok margin (acquired_at tok + real_of_int (expires_in tok) - real_of_int margin)"
  by (simp add: is_expired_def expires_at_def)

section \<open>Acquisitions of the token manager\<close>

text \<open>
  C5. \<^verbatim>\<open>get_token\<close> sends a request to the token endpoint exactly when no credential is
  cached or the clock reading is at least the expiry of the cached one minus the margin.
  When it does and the endpoint answers with a credential, \<^verbatim>\<open>get_token\<close> returns the access
  value of that answer and caches the new credential, stamped with the clock reading taken
  after the answer, in place of whatever was cached. If the clock reading of a second call
  is below the expiry of the new credential minus the margin, the second call returns the
  same access value and changes nothing but the clock, so that the two calls have sent one
  request together. On a cached credential that is not within the margin of its expiry,
  \<^verbatim>\<open>get_token\<close> returns the cached access value and changes nothing but the clock.
\<close>

theorem get_token_acquires_iff:
  "token_requests (snd (get_token env w)) =
     (if (case cached_token w of
            None \<Rightarrow> True
          | Some tok \<Rightarrow>
              env_clock env (clock_reads w)
                \<ge> expires_at tok - real_of_int (token_refresh_margin_seconds (env_settings env)))
      then Suc (token_requests w) else token_requests w)
   \<and> ((case cached_token w of
          None \<Rightarrow> True
        | Some tok \<Rightarrow>
            env_clock env (clock_reads w)
              \<ge> expires_at tok - real_of_int (token_refresh_margin_seconds (env_settings env)))
        \<and> oauth_server env (token_requests w) = Reply st txt (Some (a, ty, life))
        \<and> is_success st \<longrightarrow>
        fst (get_token env w) = Inr a
        \<and> cached_token (snd (get_token env w))
            = Some \<lparr>access_token = a, token_type = ty, expires_in = life,
                    acquired_at = env_clock env
                      (if cached_token w = None then clock_reads w else Suc (clock_reads w))\<rparr>
        \<and> clock_reads (snd (get_token env w))
            = Suc (if cached_token w = None then clock_reads w else Suc (clock_reads w))
        \<and> (env_clock env (clock_reads (snd (get_token env w)))
              < env_clock env (if cached_token w = None then clock_reads w else Suc (clock_reads w))
                + real_of_int life
                - real_of_int (token_refresh_margin_seconds (env_settings env)) \<longrightarrow>
            get_token env (snd (get_token env w))
              = (Inr a, (snd (get_token env w))
                   \<lparr>clock_reads := Suc (clock_reads (snd (get_token env w)))\<rparr>)
            \<and> token_requests (snd (get_token env (snd (get_token env w))))
                = Suc (token_requests w)))
   \<and> (cached_token v = Some tok
        \<and> env_clock env (clock_reads v)
            < expires_at tok - real_of_int (token_refresh_margin_seconds (env_settings env)) \<longrightarrow>
        get_token env v = (Inr (access_token tok), v\<lparr>clock_reads := Suc (clock_reads v)\<rparr>))"
proof -
  let ?margin = "real_of_int (token_refresh_margin_seconds (env_settings env))"
  let ?stale = "case cached_token w of
            None \<Rightarrow> True
          | Some tok \<Rightarrow> env_clock env (clock_reads w) \<ge> expires_at tok - ?margin"
  let ?k = "if cached_token w = None then clock_reads w else Suc (clock_reads w)"
  let ?new = "\<lparr>access_token = a, token_type = ty, expires_in = life,
                acquired_at = env_clock env ?k\<rparr>"
  have count: "token_requests (snd (get_token env w)) =
     (if ?stale then Suc (token_requests w) else token_requests w)"
    by (simp add: get_token_def is_expired_def Let_def case_prod_beta split: option.splits)
  have fresh: "get_token env v = (Inr (access_token tok), v\<lparr>clock_reads := Suc (clock_reads v)\<rparr>)"
    if "cached_token v = Some tok"
      and "env_clock env (clock_reads v) < expires_at tok - ?margin" for v tok
    using that by (simp add: get_token_def is_expired_def Let_def time_time_def)
  have acquire: "get_token env w
      = (Inr a, w\<lparr>clock_reads := Suc ?k, token_requests := Suc (token_requests w),
                  cached_token := Some ?new\<rparr>)"
    if "?stale" and "oauth_server env (token_requests w) = Reply st txt (Some (a, ty, life))"
      and "is_success st"
    using that
    by (cases "cached_token w")
       (simp_all add: get_token_def is_expired_def Let_def time_time_def
          acquire_and_cache_def acquire_token_def)
  show ?thesis
  proof (intro conjI impI)
    show "token_requests (snd (get_token env w)) =
       (if ?stale then Suc (token_requests w) else token_requests w)"
      by (rule count)
  next
    assume h: "?stale \<and> oauth_server env (token_requests w) = Reply st txt (Some (a, ty, life))
        \<and> is_success st"
    then have g: "get_token env w
      = (Inr a, w\<lparr>clock_reads := Suc ?k, token_requests := Suc (token_requests w),
                  cached_token := Some ?new\<rparr>)"
      using acquire by blast
    show "fst (get_token env w) = Inr a" by (simp add: g)
    show "cached_token (snd (get_token env w)) = Some ?new" by (simp add: g)
    show "clock_reads (snd (get_token env w)) = Suc ?k" by (simp add: g)
  next
    assume h: "?stale \<and> oauth_server env (token_requests w) = Reply st txt (Some (a, ty, life))
        \<and> is_success st"
      and second: "env_clock env (clock_reads (snd (get_token env w)))
              < env_clock env ?k + real_of_int life - ?margin"
    from h have g: "get_token env w
      = (Inr a, w\<lparr>clock_reads := Suc ?k, token_requests := Suc (token_requests w),
                  cached_token := Some ?new\<rparr>)"
      using acquire by blast
    have c: "cached_token (snd (get_token env w)) = Some ?new" by (simp add: g)
    have "env_clock env (clock_reads (snd (get_token env w))) < expires_at ?new - ?margin"
      using second by (simp add: expires_at_def)
    from fresh [OF c this]
    show r: "get_token env (snd (get_token env w))
              = (Inr a, (snd (get_token env w))
                   \<lparr>clock_reads := Suc (clock_reads (snd (get_token env w)))\<rparr>)"
      by simp
    show "token_requests (snd (get_token env (snd (get_token env w)))) = Suc (token_requests w)"
      unfolding r by (simp add: g)
  next
    assume "cached_token v = Some tok
        \<and> env_clock env (clock_reads v) < expires_at tok - ?margin"
    then show "get_token env v = (Inr (access_token tok), v\<lparr>clock_reads := Suc (clock_reads v)\<rparr>)"
      using fresh by blast
  qed
qed

text \<open>
  The theorem at work: two calls, the first on a credential inside the refresh margin.
\<close>

theorem get_token_acquires_iff_witness:
  "cached_token stale_pipeline
     = Some \<lparr>access_token = ''old'', token_type = ''Bearer'',
             expires_in = 3600, acquired_at = - 3400\<rparr>
   \<and> oauth_server healthy_env (token_requests stale_pipeline)
       = Reply 200 ''OK'' (Some (''secret'', ''Bearer'', 3600))
   \<and> fst (get_token healthy_env stale_pipeline) = Inr ''secret''
   \<and> cached_token (snd (get_token healthy_env stale_pipeline))
       = Some \<lparr>access_token = ''secret'', token_type = ''Bearer'',
               expires_in = 3600, acquired_at = 1\<rparr>
   \<and> get_token healthy_env (snd (get_token healthy_env stale_pipeline))
       = (Inr ''secret'', (snd (get_token healthy_env stale_pipeline))\<lparr>clock_reads := 3\<rparr>)
   \<and> token_requests (snd (get_token healthy_env (snd (get_token healthy_env stale_pipeline)))) = 1"
  using get_token_acquires_iff [where env = healthy_env and w = stale_pipeline and st = 200
      and ?txt = "''OK''" and a = "''secret''" and ty = "''Bearer''" and life = 3600
      and v = "snd (get_token healthy_env stale_pipeline)"
      and tok = "\<lparr>access_token = ''secret'', token_type = ''Bearer'',
               expires_in = 3600, acquired_at = 1\<rparr>"]
  by (simp add: healthy_env_def stale_pipeline_def new_pipeline_def get_token_def
      acquire_and_cache_def acquire_token_def time_time_def is_success_def is_expired_def
      expires_at_def default_settings_def)

text \<open>
  C6. \<^verbatim>\<open>invalidate_token\<close> empties the cache and touches neither the network, the clock,
  the database nor the buffer. On an empty cache it changes nothing but the count of its
  own calls, and so does a second call after a first. Whatever was cached before, the
  next \<^verbatim>\<open>get_token\<close> sends a request to the token endpoint.
\<close>

theorem invalidate_token_discards:
  "cached_token (invalidate_token w) = None
   \<and> clock_reads (invalidate_token w) = clock_reads w
   \<and> token_requests (invalidate_token w) = token_requests w
   \<and> api_requests (invalidate_token w) = api_requests w
   \<and> db_sessions (invalidate_token w) = db_sessions w
   \<and> db_statements (invalidate_token w) = db_statements w
   \<and> metrics_buffer (invalidate_token w) = metrics_buffer w
   \<and> sleeps (invalidate_token w) = sleeps w
   \<and> (cached_token w = None \<longrightarrow>
        invalidate_token w = w\<lparr>invalidate_calls := Suc (invalidate_calls w)\<rparr>)
   \<and> invalidate_token (invalidate_token w) =
       (invalidate_token w)\<lparr>invalidate_calls := Suc (Suc (invalidate_calls w))\<rparr>
   \<and> token_requests (snd (get_token env (invalidate_token w))) = Suc (token_requests w)"
  by (simp add: invalidate_token_def get_token_def)

text \<open>
  The theorem at work, on the empty cache of a new pipeline.
\<close>

theorem invalidate_token_discards_witness:
  "cached_token new_pipeline = None
   \<and> invalidate_token new_pipeline = new_pipeline\<lparr>invalidate_calls := 1\<rparr>
   \<and> token_requests (snd (get_token healthy_env (invalidate_token new_pipeline))) = 1"
  using invalidate_token_discards [of new_pipeline healthy_env]
  by (simp add: new_pipeline_def invalidate_token_def)

section \<open>Invalidation on 401\<close>

text \<open>
  C7. When the request of \<^verbatim>\<open>extract\<close> is answered with an error status, \<^verbatim>\<open>extract\<close> raises
  the HTTP status error of that answer; \<^verbatim>\<open>invalidate_token\<close> has been called exactly once
  before if the status is 401, leaving the cache empty, and not at all otherwise.
\<close>

theorem extract_invalidates_on_401:
  assumes "get_auth_headers env (w\<lparr>extract_log := extract_log w @ [extractor_endpoint x]\<rparr>)
             = (Inr headers, w1)"
      and "api_server env (api_requests w1) (extractor_endpoint x) headers = Reply st txt b"
      and "\<not> is_success st"
  shows "fst (extract env x w) = Inl (HTTPStatusError st txt)
         \<and> invalidate_calls (snd (extract env x w)) =
             (if st = 401 then Suc (invalidate_calls w) else invalidate_calls w)
         \<and> cached_token (snd (extract env x w)) = (if st = 401 then None else cached_token w1)"
proof -
  have "invalidate_calls w1 = invalidate_calls w"
    using get_auth_headers_frame(7) [of env "w\<lparr>extract_log := extract_log w @ [extractor_endpoint x]\<rparr>"] assms(1)
    by simp
  with assms show ?thesis
    by (auto simp: extract_def Let_def time_time_def invalidate_token_def)
qed

text \<open>
  The theorem at work: a data API that answers 401.
\<close>

theorem extract_invalidates_on_401_witness:
  "fst (get_auth_headers (status_env 401 ''Unauthorized'')
          (new_pipeline\<lparr>extract_log := extract_log new_pipeline @ [extractor_endpoint PricesExtractor]\<rparr>))
     = Inr ''Bearer secret''
   \<and> \<not> is_success 401
   \<and> fst (extract (status_env 401 ''Unauthorized'') PricesExtractor new_pipeline)
       = Inl (HTTPStatusError 401 ''Unauthorized'')
   \<and> invalidate_calls (snd (extract (status_env 401 ''Unauthorized'') PricesExtractor new_pipeline)) = 1
   \<and> cached_token (snd (extract (status_env 401 ''Unauthorized'') PricesExtractor new_pipeline)) = None"
  using extract_invalidates_on_401 [of "status_env 401 ''Unauthorized''" new_pipeline PricesExtractor
      "''Bearer secret''"
      "snd (get_auth_headers (status_env 401 ''Unauthorized'')
          (new_pipeline\<lparr>extract_log := extract_log new_pipeline @ [extractor_endpoint PricesExtractor]\<rparr>))"
      401 "''Unauthorized''" None]
  by (simp add: run_defs invalidate_token_def)

section \<open>Backoff\<close>



section \<open>Summary of the health buffer\<close>

text \<open>
  C9. On a buffer of outcome records, \<^verbatim>\<open>get_summary\<close> returns their number, the number of
  those whose success flag is set, the difference of the two, and the success rate: 0
  for the empty buffer, otherwise \<open>100 * success / total\<close> rounded to a multiple of one
  hundredth, at most half a hundredth away. It leaves the state as it is. On four
  records of which three succeeded the summary is 4, 3, 1 and 75.
\<close>

theorem get_summary_counts:
  assumes "metrics_buffer w = map Some ms"
  shows "get_summary w =
           (Inr \<lparr>sum_total = int (length ms),
                 sum_success = int (length (filter success ms)),
                 sum_failed = int (length ms) - int (length (filter success ms)),
                 sum_success_rate =
                   (if ms = [] then 0
                    else py_round2 (100 * real (length (filter success ms)) / real (length ms)))\<rparr>,
            w)
         \<and> (\<exists>k. py_round2 (100 * real (length (filter success ms)) / real (length ms)) * 100
                  = real_of_int k)
         \<and> \<bar>py_round2 (100 * real (length (filter success ms)) / real (length ms))
              - 100 * real (length (filter success ms)) / real (length ms)\<bar> \<le> 1 / 200
         \<and> (length ms = 4 \<and> length (filter success ms) = 3 \<longrightarrow>
              fst (get_summary w) =
                Inr \<lparr>sum_total = 4, sum_success = 3, sum_failed = 1, sum_success_rate = 75\<rparr>)"
proof (intro conjI impI)
  show s: "get_summary w =
           (Inr \<lparr>sum_total = int (length ms),
                 sum_success = int (length (filter success ms)),
                 sum_failed = int (length ms) - int (length (filter success ms)),
                 sum_success_rate =
                   (if ms = [] then 0
                    else py_round2 (100 * real (length (filter success ms)) / real (length ms)))\<rparr>,
            w)"
    using assms by (auto simp: get_summary_def Let_def filter_Some_success)
  show "\<exists>k. py_round2 (100 * real (length (filter success ms)) / real (length ms)) * 100
                  = real_of_int k"
    using py_round2_near(1) by blast
  show "\<bar>py_round2 (100 * real (length (filter success ms)) / real (length ms))
              - 100 * real (length (filter success ms)) / real (length ms)\<bar> \<le> 1 / 200"
    by (rule py_round2_near(2))
  assume "length ms = 4 \<and> length (filter success ms) = 3"
  then have "length ms = 4" "length (filter success ms) = 3" "ms \<noteq> []" by auto
  then show "fst (get_summary w) =
                Inr \<lparr>sum_total = 4, sum_success = 3, sum_failed = 1, sum_success_rate = 75\<rparr>"
    unfolding s by (simp add: py_round2_75)
qed

text \<open>
  The theorem at work: three successes and one failure.
\<close>

theorem get_summary_counts_witness:
  "get_summary (new_pipeline\<lparr>metrics_buffer :=
       map Some [ok_metrics, failed_metrics, ok_metrics, ok_metrics]\<rparr>)
     = (Inr \<lparr>sum_total = 4, sum_success = 3, sum_failed = 1, sum_success_rate = 75\<rparr>,
        new_pipeline\<lparr>metrics_buffer :=
          map Some [ok_metrics, failed_metrics, ok_metrics, ok_metrics]\<rparr>)"
  using get_summary_counts [of "new_pipeline\<lparr>metrics_buffer :=
       map Some [ok_metrics, failed_metrics, ok_metrics, ok_metrics]\<rparr>"
      "[ok_metrics, failed_metrics, ok_metrics, ok_metrics]"]
  by (simp add: ok_metrics_def failed_metrics_def py_round2_75)

section \<open>Arguments that are zero\<close>

text \<open>
  C10. Passing 0 for the number of retries, or for the delay, is the same as passing
  nothing. Against a source that always fails with an HTTP status error or a transport
  error, and with the default settings, passing 0 for both makes \<^verbatim>\<open>extract_with_retry\<close>
  call \<^verbatim>\<open>extract\<close> four times and sleep 5, 10 and 20 seconds; and when the configured
  number of retries is not 0, no argument makes it stop after a single call. When the
  configured delay is not 0, no argument makes it sleep for a delay of 0.
\<close>

theorem zero_arguments_discarded:
  "extract_with_retry env x (Some 0) retry_delay w = extract_with_retry env x None retry_delay w
   \<and> extract_with_retry env x max_retries (Some 0) w = extract_with_retry env x max_retries None w
   \<and> ((\<forall>v. \<exists>e. fst (extract env x v) = Inl e \<and> is_httpx_error e) \<longrightarrow>
        (env_settings env = default_settings \<longrightarrow>
           extract_log (snd (extract_with_retry env x (Some 0) (Some 0) w))
             = extract_log w @ replicate 4 (extractor_endpoint x)
           \<and> sleeps (snd (extract_with_retry env x (Some 0) (Some 0) w)) = sleeps w @ [5, 10, 20])
        \<and> (etl_max_retries (env_settings env) \<noteq> 0 \<longrightarrow>
             extract_log (snd (extract_with_retry env x max_retries retry_delay w))
               \<noteq> extract_log w @ [extractor_endpoint x]))
   \<and> (etl_retry_delay_seconds (env_settings env) \<noteq> 0 \<longrightarrow>
        0 \<notin> set (drop (length (sleeps w))
                   (sleeps (snd (extract_with_retry env x max_retries retry_delay w)))))"
proof (intro conjI impI)
  show "extract_with_retry env x (Some 0) retry_delay w = extract_with_retry env x None retry_delay w"
    by (simp add: extract_with_retry_def or_int_def)
  show "extract_with_retry env x max_retries (Some 0) w = extract_with_retry env x max_retries None w"
    by (simp add: extract_with_retry_def or_real_def)
next
  assume fails: "\<forall>v. \<exists>e. fst (extract env x v) = Inl e \<and> is_httpx_error e"
     and cfg: "env_settings env = default_settings"
  have m: "3 = or_int (Some 0) (etl_max_retries (env_settings env))" "0 \<le> (3::int)"
   and d: "5 = or_real (Some 0) (real_of_int (etl_retry_delay_seconds (env_settings env)))"
    by (simp_all add: cfg or_int_def or_real_def default_settings_def)
  from extract_with_retry_all_fail [OF fails m d, of w]
  obtain w' where "extract_with_retry env x (Some 0) (Some 0) w = (Inr (JNull, None), w')
                   \<or> snd (extract_with_retry env x (Some 0) (Some 0) w) = w'"
    "extract_log w' = extract_log w @ replicate (nat 3 + 1) (extractor_endpoint x)"
    "sleeps w' = sleeps w @ map (\<lambda>i. 5 * 2 ^ i) [0..<nat 3]"
    by auto
  then have r:
    "extract_log (snd (extract_with_retry env x (Some 0) (Some 0) w))
       = extract_log w @ replicate (nat 3 + 1) (extractor_endpoint x)"
    "sleeps (snd (extract_with_retry env x (Some 0) (Some 0) w))
       = sleeps w @ map (\<lambda>i. 5 * 2 ^ i) [0..<nat 3]"
    by auto
  show "extract_log (snd (extract_with_retry env x (Some 0) (Some 0) w))
             = extract_log w @ replicate 4 (extractor_endpoint x)"
    using r(1) by (simp add: numeral_eq_Suc)
  show "sleeps (snd (extract_with_retry env x (Some 0) (Some 0) w)) = sleeps w @ [5, 10, 20]"
    using r(2) by (simp add: upt_rec)
next
  assume fails: "\<forall>v. \<exists>e. fst (extract env x v) = Inl e \<and> is_httpx_error e"
     and cfg: "etl_max_retries (env_settings env) \<noteq> 0"
  define m where "m = or_int max_retries (etl_max_retries (env_settings env))"
  have "m \<noteq> 0"
    using cfg by (simp add: m_def or_int_def split: option.splits)
  show "extract_log (snd (extract_with_retry env x max_retries retry_delay w))
               \<noteq> extract_log w @ [extractor_endpoint x]"
  proof (cases "0 \<le> m")
    case True
    from extract_with_retry_all_fail [OF fails m_def True refl, of retry_delay w]
    have "extract_log (snd (extract_with_retry env x max_retries retry_delay w))
            = extract_log w @ replicate (nat m + 1) (extractor_endpoint x)"
      by auto
    moreover from True \<open>m \<noteq> 0\<close> have "nat m + 1 = Suc (Suc (nat m - 1))"
      by linarith
    ultimately show ?thesis by simp
  next
    case False
    then have "[0..<nat (m + 1)] = []" by simp
    then have "extract_log (snd (extract_with_retry env x max_retries retry_delay w)) = extract_log w"
      by (simp add: extract_with_retry_def Let_def m_def [symmetric])
    then show ?thesis by simp
  qed
next
  assume cfg: "etl_retry_delay_seconds (env_settings env) \<noteq> 0"
  define d where "d = or_real retry_delay (real_of_int (etl_retry_delay_seconds (env_settings env)))"
  have "d \<noteq> 0"
    using cfg by (simp add: d_def or_real_def split: option.splits)
  from extract_with_retry_prefix [of max_retries env x retry_delay w]
  obtain k where "sleeps (snd (extract_with_retry env x max_retries retry_delay w))
        = sleeps w @ map (\<lambda>i. d * 2 ^ i) [0..<k]"
    unfolding d_def by blast
  then show "0 \<notin> set (drop (length (sleeps w))
                   (sleeps (snd (extract_with_retry env x max_retries retry_delay w))))"
    using \<open>d \<noteq> 0\<close> by auto
qed

text \<open>
  The theorem at work: the default settings and a data API that always answers 500.
\<close>

theorem zero_arguments_discarded_witness:
  "(\<forall>v. \<exists>e. fst (extract (status_env 500 ''Internal Server Error'') PricesExtractor v) = Inl e
            \<and> is_httpx_error e)
   \<and> env_settings (status_env 500 ''Internal Server Error'') = default_settings
   \<and> etl_max_retries (env_settings (status_env 500 ''Internal Server Error'')) \<noteq> 0
   \<and> etl_retry_delay_seconds (env_settings (status_env 500 ''Internal Server Error'')) \<noteq> 0
   \<and> extract_log (snd (extract_with_retry (status_env 500 ''Internal Server Error'')
         PricesExtractor (Some 0) (Some 0) new_pipeline))
       = replicate 4 (extractor_endpoint PricesExtractor)
   \<and> sleeps (snd (extract_with_retry (status_env 500 ''Internal Server Error'')
         PricesExtractor (Some 0) (Some 0) new_pipeline)) = [5, 10, 20]"
proof -
  have f: "\<forall>v. \<exists>e. fst (extract (status_env 500 ''Internal Server Error'') PricesExtractor v) = Inl e
            \<and> is_httpx_error e"
    by (simp add: status_env_fails is_success_def)
  have s: "env_settings (status_env 500 ''Internal Server Error'') = default_settings"
    by (simp add: status_env_def healthy_env_def)
  from zero_arguments_discarded [of "status_env 500 ''Internal Server Error''" PricesExtractor
      "Some 0" new_pipeline "Some 0"] f s
  have "extract_log (snd (extract_with_retry (status_env 500 ''Internal Server Error'')
         PricesExtractor (Some 0) (Some 0) new_pipeline))
       = extract_log new_pipeline @ replicate 4 (extractor_endpoint PricesExtractor)"
    and "sleeps (snd (extract_with_retry (status_env 500 ''Internal Server Error'')
         PricesExtractor (Some 0) (Some 0) new_pipeline)) = sleeps new_pipeline @ [5, 10, 20]"
    by blast+
  then show ?thesis
    using f s by (simp add: new_pipeline_def default_settings_def)
qed

end
